theory Spec2Isabelle
  imports Main
begin

section \<open>Strings of the deployment service\<close>

text \<open>
  The service is \<^verbatim>\<open>src/lib/cloudflare-pages.ts\<close>. Its strings are modelled as
  \<^typ>\<open>string\<close>: a character is a code unit below 256 (Latin-1), and \<open>length\<close>
  counts code units as the source's \<^verbatim>\<open>.length\<close> does.
\<close>

definition code :: "char \<Rightarrow> nat" where
  "code c = of_char c"

text \<open>\<^verbatim>\<open>String.prototype.toLowerCase\<close> on code units below 256: A-Z and the
  Latin-1 capitals (all of 0xC0-0xDE but the multiplication sign) move up by 32.\<close>

definition toLowerCase_char :: "char \<Rightarrow> char" where
  "toLowerCase_char c =
     (if (65 \<le> code c \<and> code c \<le> 90) \<or> (192 \<le> code c \<and> code c \<le> 222 \<and> code c \<noteq> 215)
      then char_of (code c + 32) else c)"

definition toLowerCase :: "string \<Rightarrow> string" where
  "toLowerCase s = map toLowerCase_char s"

text \<open>White space and line terminators of \<^verbatim>\<open>String.prototype.trim\<close> below 256:
  TAB, LF, VT, FF, CR, SP and NBSP.\<close>

definition isWhiteSpace :: "char \<Rightarrow> bool" where
  "isWhiteSpace c = ((9 \<le> code c \<and> code c \<le> 13) \<or> code c = 32 \<or> code c = 160)"

definition trim :: "string \<Rightarrow> string" where
  "trim s = rev (dropWhile isWhiteSpace (rev (dropWhile isWhiteSpace s)))"

subsection \<open>sanitizeProjectName\<close>

text \<open>The character classes \<^verbatim>\<open>[a-z0-9]\<close> and \<^verbatim>\<open>[a-z0-9-]\<close>.\<close>

definition isAlnum :: "char \<Rightarrow> bool" where
  "isAlnum c = ((97 \<le> code c \<and> code c \<le> 122) \<or> (48 \<le> code c \<and> code c \<le> 57))"

definition isNameChar :: "char \<Rightarrow> bool" where
  "isNameChar c = (isAlnum c \<or> c = CHR ''-'')"

text \<open>\<^verbatim>\<open>.replace(/[^a-z0-9-]/g, '-')\<close>\<close>

definition replaceInvalid :: "string \<Rightarrow> string" where
  "replaceInvalid s = map (\<lambda>c. if isNameChar c then c else CHR ''-'') s"

text \<open>\<^verbatim>\<open>.replace(/-+/g, '-')\<close>: every maximal run of hyphens becomes one hyphen.\<close>

fun collapseHyphens :: "string \<Rightarrow> string" where
  "collapseHyphens (c # d # cs) =
     (if c = CHR ''-'' \<and> d = CHR ''-'' then collapseHyphens (d # cs)
      else c # collapseHyphens (d # cs))"
| "collapseHyphens cs = cs"

text \<open>\<^verbatim>\<open>.replace(/^-+|-+$/g, '')\<close>: the leading and the trailing run of hyphens go.\<close>

definition isHyphen :: "char \<Rightarrow> bool" where
  "isHyphen c = (c = CHR ''-'')"

definition trimHyphens :: "string \<Rightarrow> string" where
  "trimHyphens s = rev (dropWhile isHyphen (rev (dropWhile isHyphen s)))"

text \<open>\<^verbatim>\<open>/^[a-z0-9]/.test(s)\<close> and \<^verbatim>\<open>/[a-z0-9]$/.test(s)\<close>\<close>

definition startsAlnum :: "string \<Rightarrow> bool" where
  "startsAlnum s = (case s of [] \<Rightarrow> False | c # _ \<Rightarrow> isAlnum c)"

definition endsAlnum :: "string \<Rightarrow> bool" where
  "endsAlnum s = (case rev s of [] \<Rightarrow> False | c # _ \<Rightarrow> isAlnum c)"

definition cleanName :: "string \<Rightarrow> string" where
  "cleanName name =
     trimHyphens (collapseHyphens (replaceInvalid (trim (toLowerCase name))))"

definition ensureAlnumEnds :: "string \<Rightarrow> string" where
  "ensureAlnumEnds s0 =
     (let s1 = (if \<not> startsAlnum s0 then ''webmint-'' @ s0 else s0)
      in if \<not> endsAlnum s1 then s1 @ ''-app'' else s1)"

definition truncateName :: "string \<Rightarrow> string" where
  "truncateName s = (if length s > 58 then take 55 s @ ''-app'' else s)"

definition ensureMinLength :: "string \<Rightarrow> string" where
  "ensureMinLength s = (if length s < 3 then ''webmint-'' @ s @ ''-app'' else s)"

definition sanitizeProjectName :: "string \<Rightarrow> string" where
  "sanitizeProjectName name =
     ensureMinLength (truncateName (ensureAlnumEnds (cleanName name)))"

text \<open>Two hyphens next to each other somewhere in the string.\<close>

fun hasDoubleHyphen :: "string \<Rightarrow> bool" where
  "hasDoubleHyphen (c # d # cs) =
     ((c = CHR ''-'' \<and> d = CHR ''-'') \<or> hasDoubleHyphen (d # cs))"
| "hasDoubleHyphen cs = False"

subsection \<open>URL normalisation\<close>

text \<open>
  \<^verbatim>\<open>url.replace(/^[^.]+\.(.*)$/, '$1')\<close>. The class \<^verbatim>\<open>[^.]\<close> takes any character but
  the dot, so \<^verbatim>\<open>[^.]+\<close> can only end right before the first dot; \<^verbatim>\<open>.\<close> takes
  no line terminator and \<^verbatim>\<open>$\<close> (no \<^verbatim>\<open>m\<close> flag) is the end of the string.
  When the pattern does not match, \<^verbatim>\<open>replace\<close> returns the string as it is.
\<close>

definition isLineTerminator :: "char \<Rightarrow> bool" where
  "isLineTerminator c = (code c = 10 \<or> code c = 13)"

definition notDot :: "char \<Rightarrow> bool" where
  "notDot c = (c \<noteq> CHR ''.'')"

definition cleanUrl :: "string \<Rightarrow> string" where
  "cleanUrl u =
     (let label = takeWhile notDot u;
          rest = dropWhile notDot u
      in if label \<noteq> [] \<and> rest \<noteq> [] \<and> \<not> list_ex isLineTerminator (tl rest)
         then tl rest else u)"


section \<open>Packaging\<close>

text \<open>The three strings handed to the service, and the prepared file set: an object whose
  keys are in insertion order, so an association list.\<close>

record files =
  html :: string
  css :: string
  js :: string

record file_data =
  content :: string
  type :: string

type_synonym deployment_files = "(string \<times> file_data) list"

definition createFullHtmlPage :: "string \<Rightarrow> string \<Rightarrow> string \<Rightarrow> string" where
  \<open>createFullHtmlPage h c j =
     (let hasExternalCss = (c \<noteq> [] \<and> length (trim c) > 500);
          hasExternalJs = (j \<noteq> [] \<and> length (trim j) > 500);
          cssTag = (if hasExternalCss then ''<link rel="stylesheet" href="styles.css">''
                    else if c \<noteq> [] then ''<style>'' @ c @ ''</style>'' else []);
          jsTag = (if hasExternalJs then ''<script src="script.js"></script>''
                   else if j \<noteq> [] then ''<script>'' @ j @ ''</script>'' else [])
      in ''<!DOCTYPE html>'' @ [CHR 0x0A] @
         ''<html lang="en">'' @ [CHR 0x0A] @
         ''<head>'' @ [CHR 0x0A] @
         ''    <meta charset="UTF-8">'' @ [CHR 0x0A] @
         ''    <meta name="viewport" content="width=device-width, initial-scale=1.0">'' @ [CHR 0x0A] @
         ''    <title>Generated Page</title>'' @ [CHR 0x0A] @
         ''    <script src="https://cdn.tailwindcss.com"></script>'' @ [CHR 0x0A] @
         ''    '' @ cssTag @ [CHR 0x0A] @
         ''</head>'' @ [CHR 0x0A] @
         ''<body>'' @ [CHR 0x0A] @
         ''    '' @ h @ [CHR 0x0A] @
         ''    '' @ jsTag @ [CHR 0x0A] @
         ''</body>'' @ [CHR 0x0A] @
         ''</html>'')\<close>

definition prepareDeploymentFiles :: "files \<Rightarrow> deployment_files" where
  "prepareDeploymentFiles f =
     [(''index.html'',
       \<lparr>content = createFullHtmlPage (html f) (css f) (js f), type = ''text/html''\<rparr>)] @
     (if css f \<noteq> [] \<and> length (trim (css f)) > 0
      then [(''styles.css'', \<lparr>content = trim (css f), type = ''text/css''\<rparr>)] else []) @
     (if js f \<noteq> [] \<and> length (trim (js f)) > 0
      then [(''script.js'', \<lparr>content = trim (js f), type = ''application/javascript''\<rparr>)]
      else [])"

section \<open>Values, exceptions and effects\<close>

text \<open>Parsed JSON and the values built from it, with whole numbers for the numbers. A
  property that is absent reads as \<open>JUndefined\<close>.\<close>

datatype json =
    JUndefined
  | JNull
  | JBool bool
  | JNumber int
  | JString string
  | JArray "json list"
  | JObject "(string \<times> json) list"

text \<open>A thrown value: an \<^verbatim>\<open>Error\<close> instance with its message and, for the provider
  client's errors, an HTTP status; or some other value, which has neither.\<close>

datatype thrown =
    ErrorObject (message: string) (status: "int option")
  | OtherValue

definition typeError :: "string \<Rightarrow> thrown" where
  "typeError m = ErrorObject m None"

definition truthy :: "json \<Rightarrow> bool" where
  "truthy v = (case v of JUndefined \<Rightarrow> False | JNull \<Rightarrow> False | JBool b \<Rightarrow> b
     | JNumber n \<Rightarrow> n \<noteq> 0 | JString s \<Rightarrow> s \<noteq> [] | JArray _ \<Rightarrow> True | JObject _ \<Rightarrow> True)"

definition nullish :: "json \<Rightarrow> bool" where
  "nullish v = (v = JUndefined \<or> v = JNull)"

text \<open>\<^verbatim>\<open>v.p\<close>: a \<^verbatim>\<open>TypeError\<close> on \<^verbatim>\<open>undefined\<close> and \<^verbatim>\<open>null\<close>, and
  \<^verbatim>\<open>v?.p\<close>, which gives \<^verbatim>\<open>undefined\<close> there.\<close>

definition readProp :: "json \<Rightarrow> string \<Rightarrow> json" where
  "readProp v p = (case v of JObject kvs \<Rightarrow> (case map_of kvs p of Some x \<Rightarrow> x | None \<Rightarrow> JUndefined)
                | _ \<Rightarrow> JUndefined)"

definition getProp :: "json \<Rightarrow> string \<Rightarrow> thrown + json" where
  "getProp v p =
     (if nullish v then Inl (typeError (''Cannot read properties of undefined (reading '' @ p @ '')''))
      else Inr (readProp v p))"

definition optProp :: "json \<Rightarrow> string \<Rightarrow> json" where
  "optProp v p = (if nullish v then JUndefined else readProp v p)"

text \<open>\<^verbatim>\<open>a || b\<close>\<close>

definition orElse :: "json \<Rightarrow> json \<Rightarrow> json" where
  "orElse a b = (if truthy a then a else b)"

text \<open>\<^verbatim>\<open>s.includes(p)\<close>\<close>

fun startsWith :: "string \<Rightarrow> string \<Rightarrow> bool" where
  "startsWith s [] = True"
| "startsWith [] (p # ps) = False"
| "startsWith (c # cs) (p # ps) = (c = p \<and> startsWith cs ps)"

fun includes_str :: "string \<Rightarrow> string \<Rightarrow> bool" where
  "includes_str [] p = (p = [])"
| "includes_str (c # cs) p = (startsWith (c # cs) p \<or> includes_str cs p)"

text \<open>What a fetch resolves to: \<open>responseUrl\<close> is the source's \<^verbatim>\<open>response.url\<close>, and
  \<open>body\<close> is what \<^verbatim>\<open>await response.json()\<close> gives, a rejection when the body is no
  JSON.\<close>

record response =
  ok :: bool
  responseUrl :: string
  statusText :: string
  body :: "thrown + json"

text \<open>One entry of the bulk upload; \<open>value64\<close> is the source's \<^verbatim>\<open>value\<close>.\<close>

record upload_file =
  base64 :: bool
  key :: string
  value64 :: string
  contentType :: string

type_synonym manifest = "(string \<times> string) list"

text \<open>The calls a run makes on the outside world, in order.\<close>

datatype call =
    ProjectsGet string
  | ProjectsCreate string
  | Mkdir string
  | WriteFile string string
  | Readdir string
  | ReadFile string
  | FetchUploadToken string
  | FetchUpload json "upload_file list"
  | FetchDeployments string manifest string
  | FetchDeploymentsForm string string "(string \<times> string) list"
  | Enqueue json
  | EnqueueDone
  | Close

text \<open>A computation: the calls made, and a value or the exception that ended it.\<close>

type_synonym 'a io = "call list \<times> (thrown + 'a)"

definition ret :: "'a \<Rightarrow> 'a io" where
  "ret a = ([], Inr a)"

definition raise :: "thrown \<Rightarrow> 'a io" where
  "raise e = ([], Inl e)"

definition lift :: "thrown + 'a \<Rightarrow> 'a io" where
  "lift r = ([], r)"

definition perform :: "call \<Rightarrow> thrown + 'a \<Rightarrow> 'a io" where
  "perform c r = ([c], r)"

definition andThen :: "'a io \<Rightarrow> ('a \<Rightarrow> 'b io) \<Rightarrow> 'b io" where
  "andThen m f =
     (case m of
        (cs, Inl e) \<Rightarrow> (cs, Inl e)
      | (cs, Inr a) \<Rightarrow> (case f a of (ds, r) \<Rightarrow> (cs @ ds, r)))"

definition tryCatch :: "'a io \<Rightarrow> (thrown \<Rightarrow> 'a io) \<Rightarrow> 'a io" where
  "tryCatch m h =
     (case m of
        (cs, Inl e) \<Rightarrow> (case h e of (ds, r) \<Rightarrow> (cs @ ds, r))
      | (cs, Inr a) \<Rightarrow> (cs, Inr a))"

definition settle :: "thrown option \<Rightarrow> thrown + unit" where
  "settle r = (case r of None \<Rightarrow> Inr () | Some e \<Rightarrow> Inl e)"

text \<open>The library functions the service calls: digests as hex strings, base64,
  \<^verbatim>\<open>JSON.stringify(v)\<close> and \<^verbatim>\<open>JSON.stringify(v, null, 2)\<close>, the string a value becomes
  inside a template literal, \<^verbatim>\<open>path.join\<close>, and \<^verbatim>\<open>generateAsync\<close> of an archive with
  the given entries (name and content): a rejection, or the bytes of the archive. The
  bytes hold the date of each entry, which \<^verbatim>\<open>zip.file(name, content)\<close> takes from the
  clock (\<^verbatim>\<open>new Date()\<close>) when the entry is added; so they are given as a function of
  the dates of the entries, by name.\<close>

record lib =
  md5 :: "string \<Rightarrow> string"
  sha256 :: "string \<Rightarrow> string"
  toBase64 :: "string \<Rightarrow> string"
  stringify :: "json \<Rightarrow> string"
  stringify2 :: "json \<Rightarrow> string"
  toStr :: "json \<Rightarrow> string"
  pathJoin :: "string list \<Rightarrow> string"
  generateAsync :: "(string \<times> string) list \<Rightarrow> thrown + ((string \<Rightarrow> string) \<Rightarrow> string)"

text \<open>What the outside world answers in one run: the provider client (the service's
  project lookup, and the one the second streaming route makes itself), the clock, the
  file system and the three fetches. The clock is read for the name of the backup
  directory, for the backup manifest of the second service and for the result; and by
  \<^verbatim>\<open>zip.file\<close> for the date of each entry of the three archives that a run builds: the
  one of the backup, the one that is uploaded (lines 160-163) and the one whose digest
  goes into the manifest (lines 207-210, after the upload has been awaited).\<close>

record world =
  projects_get :: "thrown option"
  projects_get_route :: "thrown option"
  projects_create :: "thrown option"
  now_backup :: string
  now_manifest :: string
  now_result :: string
  zipDate_backup :: "string \<Rightarrow> string"
  zipDate_upload :: "string \<Rightarrow> string"
  zipDate_manifest :: "string \<Rightarrow> string"
  cwd :: string
  mkdir :: "string \<Rightarrow> thrown option"
  writeFile :: "string \<Rightarrow> thrown option"
  readdir :: "string \<Rightarrow> thrown + string list"
  readFile :: "string \<Rightarrow> thrown + string"
  fetch_upload_token :: "thrown + response"
  fetch_upload :: "thrown + response"
  fetch_deployments :: "thrown + response"


section \<open>The deployment service\<close>

record service =
  apiToken :: string
  accountId :: string

text \<open>The object \<^verbatim>\<open>deployPage\<close> returns; a property it does not set is \<open>JUndefined\<close>,
  and \<open>methodTag\<close> is the source's \<^verbatim>\<open>method\<close>.\<close>

record deploy_result =
  success :: bool
  deploymentId :: json
  url :: json
  projectName :: json
  createdAt :: json
  methodTag :: json
  warning :: json
  error :: json

definition failure :: "string \<Rightarrow> deploy_result" where
  "failure m = \<lparr>success = False, deploymentId = JUndefined, url = JUndefined,
     projectName = JUndefined, createdAt = JUndefined, methodTag = JUndefined,
     warning = JUndefined, error = JString m\<rparr>"

subsection \<open>Project lookup, lines 35-58\<close>

definition ensureProject :: "world \<Rightarrow> string \<Rightarrow> unit io" where
  "ensureProject W finalProjectName =
     tryCatch (perform (ProjectsGet finalProjectName) (settle (projects_get W)))
       (\<lambda>err. case err of
          ErrorObject m _ \<Rightarrow>
            if includes_str m ''404''
            then perform (ProjectsCreate finalProjectName) (settle (projects_create W))
            else raise err
        | OtherValue \<Rightarrow> raise err)"

subsection \<open>createLocalBackupAndZip, lines 469-506\<close>

definition zipEntries :: "deployment_files \<Rightarrow> (string \<times> string) list" where
  "zipEntries deploymentFiles = map (\<lambda>(fileName, fileData). (fileName, content fileData)) deploymentFiles"

fun writeFiles :: "lib \<Rightarrow> world \<Rightarrow> string \<Rightarrow> deployment_files \<Rightarrow> unit io" where
  "writeFiles L W backupDir [] = ret ()"
| "writeFiles L W backupDir ((fileName, fileData) # rest) =
     andThen (perform (WriteFile (pathJoin L [backupDir, fileName]) (content fileData))
                (settle (writeFile W (pathJoin L [backupDir, fileName]))))
       (\<lambda>_. writeFiles L W backupDir rest)"

definition createLocalBackupAndZip ::
  "lib \<Rightarrow> world \<Rightarrow> deployment_files \<Rightarrow> string \<Rightarrow> (string \<times> string) io" where
  "createLocalBackupAndZip L W deploymentFiles name =
     tryCatch
       (let timestamp = map (\<lambda>c. if c = CHR '':'' \<or> c = CHR ''.'' then CHR ''-'' else c)
                          (now_backup W);
            backupDir = pathJoin L [cwd W, ''backups'', name @ ''-'' @ timestamp];
            zipPath = pathJoin L [backupDir, name @ ''-deployment.zip'']
        in andThen (perform (Mkdir backupDir) (settle (mkdir W backupDir))) (\<lambda>_.
           andThen (writeFiles L W backupDir deploymentFiles) (\<lambda>_.
           andThen (lift (generateAsync L (zipEntries deploymentFiles))) (\<lambda>archive.
           let zipBuffer = archive (zipDate_backup W) in
           andThen (perform (WriteFile zipPath zipBuffer) (settle (writeFile W zipPath))) (\<lambda>_.
           ret (backupDir, zipBuffer))))))
       (\<lambda>err. raise err)"

subsection \<open>Upload token, lines 77-94\<close>

definition uploadTokenUrl :: "string \<Rightarrow> string \<Rightarrow> string" where
  "uploadTokenUrl acct name =
     ''https://api.cloudflare.com/client/v4/accounts/'' @ acct @ ''/pages/projects/'' @ name
       @ ''/upload-token''"

definition getUploadToken :: "lib \<Rightarrow> world \<Rightarrow> service \<Rightarrow> string \<Rightarrow> json io" where
  "getUploadToken L W S finalProjectName =
     andThen (perform (FetchUploadToken (uploadTokenUrl (accountId S) finalProjectName))
                (fetch_upload_token W)) (\<lambda>tokenResponse.
       if \<not> ok tokenResponse
       then andThen (lift (body tokenResponse)) (\<lambda>errorData.
              raise (ErrorObject (''Failed to get upload token: '' @ stringify L errorData) None))
       else andThen (lift (body tokenResponse)) (\<lambda>tokenData.
            andThen (lift (getProp tokenData ''result'')) (\<lambda>res.
            lift (getProp res ''jwt''))))"

subsection \<open>The files to upload, lines 98-174\<close>

definition uploadEntry :: "string \<Rightarrow> string \<Rightarrow> string \<Rightarrow> upload_file" where
  "uploadEntry k v t = \<lparr>base64 = True, key = k, value64 = v, contentType = t\<rparr>"

definition sha256Manifest :: "lib \<Rightarrow> deployment_files \<Rightarrow> json" where
  "sha256Manifest L deploymentFiles =
     JObject [(''files'',
       JObject (map (\<lambda>(name, fileData).
                  (name, JObject [(''sha256'', JString (sha256 L (content fileData)))]))
                deploymentFiles))]"

definition optionalUpload :: "lib \<Rightarrow> deployment_files \<Rightarrow> string \<Rightarrow> string \<Rightarrow> upload_file list" where
  "optionalUpload L deploymentFiles fileName t =
     (case map_of deploymentFiles fileName of
        None \<Rightarrow> []
      | Some fileData \<Rightarrow>
          if content fileData \<noteq> []
          then [uploadEntry (md5 L (content fileData)) (toBase64 L (content fileData)) t]
          else [])"

definition prepareUploadFiles :: "lib \<Rightarrow> world \<Rightarrow> deployment_files \<Rightarrow> upload_file list io" where
  "prepareUploadFiles L W deploymentFiles =
     andThen (lift (case map_of deploymentFiles ''index.html'' of
                      None \<Rightarrow> Inl (typeError ''Cannot read properties of undefined (reading content)'')
                    | Some fileData \<Rightarrow> Inr fileData)) (\<lambda>indexHtml.
     let manifest = sha256Manifest L deploymentFiles;
         uploadFiles =
           [uploadEntry (md5 L (content indexHtml)) (toBase64 L (content indexHtml)) ''text/html'']
           @ optionalUpload L deploymentFiles ''script.js'' ''application/javascript''
           @ optionalUpload L deploymentFiles ''styles.css'' ''text/css''
           @ [uploadEntry (md5 L (stringify L manifest)) (toBase64 L (stringify2 L manifest))
                ''application/json'']
     in andThen (lift (generateAsync L (zipEntries deploymentFiles))) (\<lambda>zipContent.
        andThen (lift (generateAsync L (zipEntries deploymentFiles))) (\<lambda>zipBytes.
        ret (uploadFiles @ [uploadEntry (md5 L (zipBytes (zipDate_upload W)))
                              (toBase64 L (zipContent (zipDate_upload W))) ''application/zip'']))))"

subsection \<open>Bulk upload, lines 178-193\<close>

definition uploadFilesCall :: "lib \<Rightarrow> world \<Rightarrow> json \<Rightarrow> upload_file list \<Rightarrow> json io" where
  "uploadFilesCall L W uploadToken uploadFiles =
     andThen (perform (FetchUpload uploadToken uploadFiles) (fetch_upload W)) (\<lambda>uploadResponse.
       if \<not> ok uploadResponse
       then andThen (lift (body uploadResponse)) (\<lambda>errorData.
              raise (ErrorObject (''Failed to upload files: '' @ stringify L errorData) None))
       else lift (body uploadResponse))"

subsection \<open>The manifest, lines 199-228\<close>

text \<open>\<^verbatim>\<open>manifestData[k] = v\<close>: a key that is there keeps its place, a new one goes last.\<close>

definition assign :: "string \<Rightarrow> string \<Rightarrow> manifest \<Rightarrow> manifest" where
  "assign k v m =
     (if k \<in> fst ` set m then map (\<lambda>(k', v'). if k' = k then (k', v) else (k', v')) m
      else m @ [(k, v)])"

definition fileHashes :: "lib \<Rightarrow> deployment_files \<Rightarrow> manifest" where
  "fileHashes L deploymentFiles =
     foldl (\<lambda>manifestData (fileName, fileData).
              assign (''/'' @ fileName) (md5 L (content fileData)) manifestData)
       [] deploymentFiles"

definition buildManifestData :: "lib \<Rightarrow> world \<Rightarrow> string \<Rightarrow> deployment_files \<Rightarrow> manifest io" where
  "buildManifestData L W finalProjectName deploymentFiles =
     andThen (lift (generateAsync L (zipEntries deploymentFiles))) (\<lambda>zipFiles.
       let zipContentFiles = zipFiles (zipDate_manifest W);
           manifestData = assign (''/'' @ finalProjectName @ ''-deployment.zip'')
                            (md5 L zipContentFiles) (fileHashes L deploymentFiles);
           manifestJsonString = stringify2 L (sha256Manifest L deploymentFiles)
       in ret (assign ''/manifest.json'' (md5 L manifestJsonString) manifestData))"

subsection \<open>Deployment creation, lines 233-279\<close>

definition deploymentsUrl :: "string \<Rightarrow> string \<Rightarrow> string" where
  "deploymentsUrl acct name =
     ''https://api.cloudflare.com/client/v4/accounts/'' @ acct @ ''/pages/projects/'' @ name
       @ ''/deployments''"

text \<open>\<^verbatim>\<open>u?.replace(regex, '$1')\<close> on a parsed value: \<^verbatim>\<open>undefined\<close> when \<open>u\<close> is nullish,
  the cleaned string when it is a string, and a \<^verbatim>\<open>TypeError\<close> otherwise; then the value
  inside a template literal.\<close>

definition replaceOpt :: "json \<Rightarrow> thrown + string option" where
  "replaceOpt u =
     (if nullish u then Inr None
      else case u of JString s \<Rightarrow> Inr (Some (cleanUrl s))
           | _ \<Rightarrow> Inl (typeError ''replace is not a function''))"

definition template :: "string option \<Rightarrow> string" where
  "template v = (case v of None \<Rightarrow> ''undefined'' | Some s \<Rightarrow> s)"

definition partialSuccess :: "world \<Rightarrow> string \<Rightarrow> response \<Rightarrow> deploy_result" where
  "partialSuccess W finalProjectName deploymentResponse =
     \<lparr>success = True, deploymentId = JString ''uploaded'',
      url = JString (cleanUrl (responseUrl deploymentResponse)),
      projectName = JString finalProjectName, createdAt = JString (now_result W),
      methodTag = JString ''direct-upload'',
      warning = JString ''Files uploaded but deployment creation failed'',
      error = JUndefined\<rparr>"

definition createDeployment ::
  "lib \<Rightarrow> world \<Rightarrow> service \<Rightarrow> string \<Rightarrow> manifest \<Rightarrow> deploy_result io" where
  "createDeployment L W S finalProjectName manifestData =
     andThen (perform (FetchDeployments (deploymentsUrl (accountId S) finalProjectName)
                         manifestData ''main'')
                (fetch_deployments W)) (\<lambda>deploymentResponse.
       if \<not> ok deploymentResponse
       then andThen (lift (body deploymentResponse)) (\<lambda>errorData.
              ret (partialSuccess W finalProjectName deploymentResponse))
       else andThen (lift (body deploymentResponse)) (\<lambda>deploymentResult.
            andThen (lift (getProp deploymentResult ''result'')) (\<lambda>res.
            andThen (lift (replaceOpt (optProp res ''url''))) (\<lambda>cleaned.
            ret \<lparr>success = True,
                 deploymentId = orElse (optProp res ''id'') (JString ''created''),
                 url = JString (''https://'' @ template cleaned),
                 projectName = JString finalProjectName,
                 createdAt = orElse (optProp res ''created_on'') (JString (now_result W)),
                 methodTag = JString ''direct-upload'',
                 warning = JUndefined, error = JUndefined\<rparr>))))"

subsection \<open>deployPage, lines 28-288\<close>

definition finalName :: "string option \<Rightarrow> string" where
  "finalName name =
     (case name of None \<Rightarrow> ''webmint-app''
      | Some n \<Rightarrow> if n \<noteq> [] then sanitizeProjectName n else ''webmint-app'')"

text \<open>The \<^verbatim>\<open>try\<close> block up to the end of the bulk upload (line 193), and the whole of it.\<close>

definition uploadPhase :: "lib \<Rightarrow> world \<Rightarrow> service \<Rightarrow> string \<Rightarrow> files \<Rightarrow> deployment_files io" where
  "uploadPhase L W S finalProjectName fs =
     andThen (ensureProject W finalProjectName) (\<lambda>_.
     let deploymentFiles = prepareDeploymentFiles fs in
     andThen (createLocalBackupAndZip L W deploymentFiles finalProjectName) (\<lambda>_.
     andThen (getUploadToken L W S finalProjectName) (\<lambda>uploadToken.
     andThen (prepareUploadFiles L W deploymentFiles) (\<lambda>uploadFiles.
     andThen (uploadFilesCall L W uploadToken uploadFiles) (\<lambda>_.
     ret deploymentFiles)))))"

definition deployPage_try ::
  "lib \<Rightarrow> world \<Rightarrow> service \<Rightarrow> string option \<Rightarrow> files \<Rightarrow> deploy_result io" where
  "deployPage_try L W S name fs =
     (let finalProjectName = finalName name
      in andThen (uploadPhase L W S finalProjectName fs) (\<lambda>deploymentFiles.
         andThen (buildManifestData L W finalProjectName deploymentFiles) (\<lambda>manifestData.
         createDeployment L W S finalProjectName manifestData)))"

definition deployPage ::
  "lib \<Rightarrow> world \<Rightarrow> service \<Rightarrow> string option \<Rightarrow> files \<Rightarrow> deploy_result io" where
  "deployPage L W S name fs =
     tryCatch (deployPage_try L W S name fs)
       (\<lambda>err. ret (failure (case err of ErrorObject m _ \<Rightarrow> m
                                | OtherValue \<Rightarrow> ''Failed to deploy page'')))"


section \<open>The streaming deploy endpoint\<close>

text \<open>\<^verbatim>\<open>POST\<close> of the streaming route that uses the service above. The request body is
  what \<^verbatim>\<open>await request.json()\<close> gives, the environment maps a variable to its value.\<close>

definition createCloudFlarePagesService :: "(string \<Rightarrow> string option) \<Rightarrow> service option" where
  "createCloudFlarePagesService env =
     (case env ''CLOUDFLARE_API_TOKEN'' of
        None \<Rightarrow> None
      | Some t \<Rightarrow>
          (case env ''CLOUDFLARE_ACCOUNT_ID'' of
             None \<Rightarrow> None
           | Some a \<Rightarrow> if t = [] \<or> a = [] then None else Some \<lparr>apiToken = t, accountId = a\<rparr>))"

definition isString :: "json \<Rightarrow> bool" where
  "isString v = (case v of JString _ \<Rightarrow> True | _ \<Rightarrow> False)"

definition asString :: "json \<Rightarrow> string" where
  "asString v = (case v of JString s \<Rightarrow> s | _ \<Rightarrow> [])"

text \<open>\<^verbatim>\<open>!v || typeof v !== "string" || v.trim().length === 0\<close>\<close>

definition invalidText :: "json \<Rightarrow> bool" where
  "invalidText v = (\<not> truthy v \<or> \<not> isString v \<or> length (trim (asString v)) = 0)"

text \<open>\<^verbatim>\<open>(v || "").trim()\<close>: a \<^verbatim>\<open>TypeError\<close> when \<open>v\<close> is truthy and no string.\<close>

definition trimOrEmpty :: "json \<Rightarrow> thrown + string" where
  "trimOrEmpty v =
     (if \<not> truthy v then Inr (trim [])
      else case v of JString s \<Rightarrow> Inr (trim s)
           | _ \<Rightarrow> Inl (typeError ''trim is not a function''))"

definition enqueue :: "json \<Rightarrow> unit io" where
  "enqueue ev = perform (Enqueue ev) (Inr ())"

definition deploymentObject :: "deploy_result \<Rightarrow> json" where
  "deploymentObject r =
     JObject [(''id'', deploymentId r), (''url'', url r), (''projectName'', projectName r),
              (''createdAt'', createdAt r)]"

datatype http_response = JsonResponse json int | EventStream

text \<open>\<^verbatim>\<open>start(controller)\<close>, lines 29-107 of the route. The alias has passed the
  validation, so \<^verbatim>\<open>projectAlias || projectName || generateProjectName()\<close> is the alias.\<close>

definition deployStream ::
  "lib \<Rightarrow> world \<Rightarrow> service \<Rightarrow> string \<Rightarrow> json \<Rightarrow> json \<Rightarrow> string \<Rightarrow> unit io" where
  "deployStream L W S h c j projectAlias =
     tryCatch
       (andThen (enqueue (JObject [(''type'', JString ''status''),
                   (''message'', JString ''Preparing deployment...''),
                   (''progress'', JNumber 10)])) (\<lambda>_.
        let finalProjectName = projectAlias in
        andThen (enqueue (JObject [(''type'', JString ''status''),
                   (''message'', JString (''Deploying to project: '' @ finalProjectName)),
                   (''progress'', JNumber 30),
                   (''projectName'', JString finalProjectName)])) (\<lambda>_.
        andThen (lift (trimOrEmpty c)) (\<lambda>cssText.
        andThen (lift (trimOrEmpty j)) (\<lambda>jsText.
        let fs = \<lparr>html = trim h, css = cssText, js = jsText\<rparr> in
        andThen (enqueue (JObject [(''type'', JString ''status''),
                   (''message'', JString ''Uploading files to CloudFlare...''),
                   (''progress'', JNumber 60),
                   (''projectName'', JString finalProjectName)])) (\<lambda>_.
        andThen (deployPage L W S (Some finalProjectName) fs) (\<lambda>result.
        andThen (if success result
                 then enqueue (JObject [(''type'', JString ''complete''),
                        (''success'', JBool True),
                        (''deployment'', deploymentObject result),
                        (''message'', JString ''Deployment completed successfully!''),
                        (''progress'', JNumber 100)])
                 else enqueue (JObject [(''type'', JString ''error''),
                        (''error'', error result)])) (\<lambda>_.
        andThen (perform EnqueueDone (Inr ())) (\<lambda>_.
        perform Close (Inr ()))))))))))
       (\<lambda>streamError.
          andThen (enqueue (JObject [(''type'', JString ''error''),
                     (''error'', JString (case streamError of ErrorObject m _ \<Rightarrow> m
                                          | OtherValue \<Rightarrow> ''Deployment failed''))])) (\<lambda>_.
          perform Close (Inr ())))"

definition POST ::
  "lib \<Rightarrow> world \<Rightarrow> (string \<Rightarrow> string option) \<Rightarrow> thrown + json \<Rightarrow> http_response io" where
  "POST L W env requestJson =
     tryCatch
       (andThen (lift requestJson) (\<lambda>b.
        andThen (lift (getProp b ''html'')) (\<lambda>h.
        let c = readProp b ''css''; j = readProp b ''js'';
            projectAlias = readProp b ''projectAlias''
        in if invalidText h
           then ret (JsonResponse
                  (JObject [(''error'', JString ''Missing or invalid HTML content'')]) 400)
           else if invalidText projectAlias
           then ret (JsonResponse
                  (JObject [(''error'',
                     JString ''Project name is required to avoid creating too many projects'')])
                  400)
           else (case createCloudFlarePagesService env of
                   None \<Rightarrow> ret (JsonResponse
                     (JObject [(''error'', JString
                        ''CloudFlare credentials not configured. Please set CLOUDFLARE_API_TOKEN and CLOUDFLARE_ACCOUNT_ID'')])
                     500)
                 | Some S \<Rightarrow>
                     andThen (deployStream L W S (asString h) c j (asString projectAlias))
                       (\<lambda>_. ret EventStream)))))
       (\<lambda>e. ret (JsonResponse
                (JObject [(''error'', JString (case e of ErrorObject m _ \<Rightarrow> m
                                               | OtherValue \<Rightarrow> ''Unknown error''))])
                500))"

section \<open>The second service and its streaming route\<close>

text \<open>
  The repository has a second copy of the service (imported by the second streaming
  route as \<^verbatim>\<open>cloudflare-pages.server\<close>): it takes the project name as it comes, writes
  the backup, and posts the files read back from the backup directory. The manifest
  that its \<^verbatim>\<open>deployPage\<close> builds only to log it is left out.
\<close>

text \<open>\<^verbatim>\<open>error.message || d\<close> and \<^verbatim>\<open>error.status === 404\<close>\<close>

definition messageOr :: "thrown \<Rightarrow> string \<Rightarrow> string" where
  "messageOr err d = (case err of ErrorObject m _ \<Rightarrow> if m \<noteq> [] then m else d | OtherValue \<Rightarrow> d)"

definition status404 :: "thrown \<Rightarrow> bool" where
  "status404 err = (case err of ErrorObject _ st \<Rightarrow> st = Some 404 | OtherValue \<Rightarrow> False)"

subsection \<open>generateFileHash\<close>

definition toInt32 :: "int \<Rightarrow> int" where
  "toInt32 x = (x + 2147483648) mod 4294967296 - 2147483648"

text \<open>\<^verbatim>\<open>hash = ((hash << 5) - hash) + char; hash = hash & hash\<close>\<close>

definition hashStep :: "int \<Rightarrow> char \<Rightarrow> int" where
  "hashStep hash c = toInt32 (toInt32 (hash * 32) - hash + int (code c))"

text \<open>\<^verbatim>\<open>Math.abs(hash).toString(36)\<close>\<close>

definition digit36 :: "int \<Rightarrow> char" where
  "digit36 n = ''0123456789abcdefghijklmnopqrstuvwxyz'' ! nat n"

function toString36 :: "int \<Rightarrow> string" where
  "toString36 n = (if n < 36 then [digit36 n] else toString36 (n div 36) @ [digit36 (n mod 36)])"
  by pat_completeness auto
termination
  by (relation "measure nat") auto

definition generateFileHash :: "string \<Rightarrow> string" where
  "generateFileHash c =
     (if length c = 0 then ''0'' else toString36 \<bar>foldl hashStep 0 c\<bar>)"

subsection \<open>createLocalBackupAndZip of the second service\<close>

definition backupManifest :: "world \<Rightarrow> json \<Rightarrow> deployment_files \<Rightarrow> json" where
  "backupManifest W name deploymentFiles =
     JObject [(''projectName'', name), (''timestamp'', JString (now_manifest W)),
       (''files'', JArray (map (\<lambda>(fileName, fileData). JString fileName) deploymentFiles)),
       (''fileSizes'', JObject (map (\<lambda>(fileName, fileData).
           (fileName, JNumber (int (length (content fileData))))) deploymentFiles))]"

definition createLocalBackupAndZip_server ::
  "lib \<Rightarrow> world \<Rightarrow> deployment_files \<Rightarrow> json \<Rightarrow> (string \<times> string) io" where
  "createLocalBackupAndZip_server L W deploymentFiles name =
     tryCatch
       (let timestamp = map (\<lambda>c. if c = CHR '':'' \<or> c = CHR ''.'' then CHR ''-'' else c)
                          (now_backup W);
            backupDir = pathJoin L [cwd W, ''backups'', toStr L name @ ''-'' @ timestamp];
            zipPath = pathJoin L [backupDir, toStr L name @ ''-deployment.zip''];
            manifestPath = pathJoin L [backupDir, ''manifest.json'']
        in andThen (perform (Mkdir backupDir) (settle (mkdir W backupDir))) (\<lambda>_.
           andThen (writeFiles L W backupDir deploymentFiles) (\<lambda>_.
           andThen (lift (generateAsync L (zipEntries deploymentFiles))) (\<lambda>archive.
           let zipBuffer = archive (zipDate_backup W) in
           andThen (perform (WriteFile zipPath zipBuffer) (settle (writeFile W zipPath))) (\<lambda>_.
           andThen (perform (WriteFile manifestPath
                               (stringify2 L (backupManifest W name deploymentFiles)))
                      (settle (writeFile W manifestPath))) (\<lambda>_.
           ret (backupDir, zipBuffer)))))))
       (\<lambda>err. raise err)"

subsection \<open>deployWithSDK\<close>

text \<open>The two loops over the file names; each iteration has its own \<^verbatim>\<open>try\<close>, and a file
  that cannot be read is left out.\<close>

fun readHashes :: "lib \<Rightarrow> world \<Rightarrow> string \<Rightarrow> string list \<Rightarrow> (string \<times> json) list io" where
  "readHashes L W backupPath [] = ret []"
| "readHashes L W backupPath (fileName # rest) =
     andThen (tryCatch
                (andThen (perform (ReadFile (pathJoin L [backupPath, fileName]))
                            (readFile W (pathJoin L [backupPath, fileName]))) (\<lambda>fileContent.
                 ret [(fileName, JObject [(''hash'', JString (generateFileHash fileContent))])]))
                (\<lambda>err. ret [])) (\<lambda>entry.
     andThen (readHashes L W backupPath rest) (\<lambda>entries.
     ret (entry @ entries)))"

fun readParts :: "lib \<Rightarrow> world \<Rightarrow> string \<Rightarrow> string list \<Rightarrow> (string \<times> string) list io" where
  "readParts L W backupPath [] = ret []"
| "readParts L W backupPath (fileName # rest) =
     andThen (tryCatch
                (andThen (perform (ReadFile (pathJoin L [backupPath, fileName]))
                            (readFile W (pathJoin L [backupPath, fileName]))) (\<lambda>fileBuffer.
                 ret [(fileName, fileBuffer)]))
                (\<lambda>err. ret [])) (\<lambda>part.
     andThen (readParts L W backupPath rest) (\<lambda>parts.
     ret (part @ parts)))"

text \<open>\<^verbatim>\<open>v?.[0]\<close>\<close>

definition optIndex0 :: "json \<Rightarrow> json" where
  "optIndex0 v =
     (case v of JArray (x # _) \<Rightarrow> x | JString (c # _) \<Rightarrow> JString [c]
      | JObject kvs \<Rightarrow> readProp v ''0'' | _ \<Rightarrow> JUndefined)"

definition deployWithSDK ::
  "lib \<Rightarrow> world \<Rightarrow> service \<Rightarrow> string \<Rightarrow> json \<Rightarrow> deployment_files \<Rightarrow> deploy_result io" where
  "deployWithSDK L W S backupPath name deploymentFiles =
     tryCatch
       (andThen (perform (Readdir backupPath) (readdir W backupPath)) (\<lambda>names.
        if ''index.html'' \<notin> set names
        then raise (ErrorObject ''index.html not found in backup directory'' None)
        else
        andThen (readHashes L W backupPath (map fst deploymentFiles)) (\<lambda>manifest.
        andThen (readParts L W backupPath (map fst deploymentFiles)) (\<lambda>parts.
        andThen (perform (FetchDeploymentsForm (deploymentsUrl (accountId S) (toStr L name))
                            (stringify L (JObject manifest)) parts)
                   (fetch_deployments W)) (\<lambda>response.
          if \<not> ok response
          then andThen (lift (body response)) (\<lambda>errorData.
               andThen (lift (getProp errorData ''errors'')) (\<lambda>errors.
               raise (ErrorObject (''SDK-style API Error: '' @
                        toStr L (orElse (optProp (optIndex0 errors) ''message'')
                                   (JString (statusText response)))) None)))
          else andThen (lift (body response)) (\<lambda>deployment.
               andThen (lift (getProp deployment ''result'')) (\<lambda>res.
               andThen (lift (getProp res ''id'')) (\<lambda>resultId.
               ret \<lparr>success = True, deploymentId = resultId, url = readProp res ''url'',
                    projectName = name, createdAt = readProp res ''created_on'',
                    methodTag = JString ''sdk-style'', warning = JUndefined,
                    error = JUndefined\<rparr>))))))))
       (\<lambda>err. ret (failure (messageOr err ''SDK-style deployment failed'')))"

subsection \<open>deployPage of the second service\<close>

definition deployPage_server ::
  "lib \<Rightarrow> world \<Rightarrow> service \<Rightarrow> json \<Rightarrow> files \<Rightarrow> deploy_result io" where
  "deployPage_server L W S name fs =
     tryCatch
       (let finalProjectName = orElse name (JString ''webmint-app'') in
        andThen (tryCatch
                   (perform (ProjectsGet (toStr L finalProjectName)) (settle (projects_get W)))
                   (\<lambda>err. if status404 err
                          then perform (ProjectsCreate (toStr L finalProjectName))
                                 (settle (projects_create W))
                          else raise err)) (\<lambda>_.
        let deploymentFiles = prepareDeploymentFiles fs in
        andThen (createLocalBackupAndZip_server L W deploymentFiles finalProjectName) (\<lambda>backup.
        deployWithSDK L W S (fst backup) finalProjectName deploymentFiles)))
       (\<lambda>err. ret (failure (messageOr err ''Failed to deploy page'')))"

subsection \<open>The route\<close>

text \<open>The route's own look at the project, lines 66-90, and \<^verbatim>\<open>start(controller)\<close>,
  lines 39-155.\<close>

definition routeCheck :: "lib \<Rightarrow> world \<Rightarrow> json \<Rightarrow> unit io" where
  "routeCheck L W finalProjectName =
     tryCatch
       (andThen (perform (ProjectsGet (toStr L finalProjectName))
                   (settle (projects_get_route W))) (\<lambda>_.
        enqueue (JObject [(''type'', JString ''status''),
          (''message'', JString (''Project '' @ toStr L finalProjectName
                                  @ '' exists, updating...'')),
          (''progress'', JNumber 50)])))
       (\<lambda>err. if status404 err
              then enqueue (JObject [(''type'', JString ''status''),
                     (''message'', JString (''Creating new project ''
                        @ toStr L finalProjectName @ ''...'')),
                     (''progress'', JNumber 50)])
              else ret ())"

definition actionStream ::
  "lib \<Rightarrow> world \<Rightarrow> service \<Rightarrow> string \<Rightarrow> json \<Rightarrow> json \<Rightarrow> json \<Rightarrow> unit io" where
  "actionStream L W S h c j finalProjectName =
     tryCatch
       (andThen (enqueue (JObject [(''type'', JString ''status''),
                   (''message'', JString ''Preparing deployment...''),
                   (''progress'', JNumber 10),
                   (''projectName'', finalProjectName)])) (\<lambda>_.
        andThen (lift (trimOrEmpty c)) (\<lambda>cssText.
        andThen (lift (trimOrEmpty j)) (\<lambda>jsText.
        let fs = \<lparr>html = trim h, css = cssText, js = jsText\<rparr> in
        andThen (enqueue (JObject [(''type'', JString ''status''),
                   (''message'', JString ''Files prepared, checking CloudFlare project...''),
                   (''progress'', JNumber 30)])) (\<lambda>_.
        andThen (routeCheck L W finalProjectName) (\<lambda>_.
        andThen (enqueue (JObject [(''type'', JString ''status''),
                   (''message'', JString ''Uploading files to CloudFlare Pages...''),
                   (''progress'', JNumber 70)])) (\<lambda>_.
        andThen (deployPage_server L W S finalProjectName fs) (\<lambda>result.
        andThen (if success result
                 then andThen (enqueue (JObject [(''type'', JString ''status''),
                                 (''message'', JString ''Deployment uploaded, processing...''),
                                 (''progress'', JNumber 85)])) (\<lambda>_.
                      enqueue (JObject [(''type'', JString ''complete''),
                        (''success'', JBool True),
                        (''deployment'', deploymentObject result),
                        (''progress'', JNumber 100),
                        (''message'', JString ''Deployment completed successfully!'')]))
                 else enqueue (JObject [(''type'', JString ''error''),
                        (''success'', JBool False),
                        (''error'', error result),
                        (''progress'', JNumber 0)])) (\<lambda>_.
        andThen (perform EnqueueDone (Inr ())) (\<lambda>_.
        perform Close (Inr ())))))))))))
       (\<lambda>streamError.
          andThen (enqueue (JObject [(''type'', JString ''error''),
                     (''success'', JBool False),
                     (''error'', JString (messageOr streamError ''Deployment streaming failed''))])) (\<lambda>_.
          perform Close (Inr ())))"

definition action ::
  "lib \<Rightarrow> world \<Rightarrow> (string \<Rightarrow> string option) \<Rightarrow> thrown + json \<Rightarrow> http_response io" where
  "action L W env requestJson =
     tryCatch
       (andThen (lift requestJson) (\<lambda>b.
        andThen (lift (getProp b ''html'')) (\<lambda>h.
        let c = readProp b ''css''; j = readProp b ''js'';
            projectName = (if readProp b ''projectName'' = JUndefined then JNull
                           else readProp b ''projectName'')
        in if invalidText h
           then ret (JsonResponse
                  (JObject [(''error'', JString ''Missing or invalid HTML content'')]) 400)
           else (case createCloudFlarePagesService env of
                   None \<Rightarrow> ret (JsonResponse
                     (JObject [(''error'', JString
                        ''CloudFlare credentials not configured. Please set CLOUDFLARE_API_TOKEN and CLOUDFLARE_ACCOUNT_ID'')])
                     500)
                 | Some S \<Rightarrow>
                     andThen (actionStream L W S (asString h) c j projectName)
                       (\<lambda>_. ret EventStream)))))
       (\<lambda>e. ret (JsonResponse
                (JObject [(''success'', JBool False),
                          (''error'', (case e of ErrorObject m _ \<Rightarrow> JString m
                                       | OtherValue \<Rightarrow> JUndefined))])
                500))"

section \<open>Events and calls of a run\<close>

text \<open>The events of a run: what it enqueued, in order, without the closing
  \<^verbatim>\<open>[DONE]\<close> line.\<close>

fun enqueued :: "call list \<Rightarrow> json list" where
  "enqueued [] = []"
| "enqueued (Enqueue ev # cs) = ev # enqueued cs"
| "enqueued (c # cs) = enqueued cs"

definition isStatus :: "json \<Rightarrow> bool" where
  "isStatus ev = (readProp ev ''type'' = JString ''status'')"

definition isComplete :: "json \<Rightarrow> bool" where
  "isComplete ev = (readProp ev ''type'' = JString ''complete'')"

definition isError :: "json \<Rightarrow> bool" where
  "isError ev = (readProp ev ''type'' = JString ''error'')"

definition isTerminal :: "json \<Rightarrow> bool" where
  "isTerminal ev = (isComplete ev \<or> isError ev)"

definition progressOf :: "json \<Rightarrow> int" where
  "progressOf ev = (case readProp ev ''progress'' of JNumber n \<Rightarrow> n | _ \<Rightarrow> 0)"

text \<open>The ordering of an event stream: the status events' progress values never go down,
  one terminal event, and it is the last event.\<close>

definition orderedStream :: "json list \<Rightarrow> bool" where
  "orderedStream evs =
     (sorted (map progressOf (filter isStatus evs)) \<and>
      length (filter isTerminal evs) = 1 \<and>
      evs \<noteq> [] \<and> isTerminal (last evs))"

text \<open>The entries that the bulk upload of a run carried, and the manifest that its
  deployment-creation request submitted.\<close>

fun uploadedFiles :: "call list \<Rightarrow> upload_file list" where
  "uploadedFiles [] = []"
| "uploadedFiles (FetchUpload tok us # cs) = us @ uploadedFiles cs"
| "uploadedFiles (c # cs) = uploadedFiles cs"

fun submittedManifest :: "call list \<Rightarrow> manifest" where
  "submittedManifest [] = []"
| "submittedManifest (FetchDeployments u m b # cs) = m @ submittedManifest cs"
| "submittedManifest (c # cs) = submittedManifest cs"

text \<open>The kind of a call, to say which calls a run made.\<close>

datatype kind = KProjects | KFiles | KToken | KUpload | KDeployments | KStream

fun kindOf :: "call \<Rightarrow> kind" where
  "kindOf (ProjectsGet _) = KProjects"
| "kindOf (ProjectsCreate _) = KProjects"
| "kindOf (Mkdir _) = KFiles"
| "kindOf (WriteFile _ _) = KFiles"
| "kindOf (Readdir _) = KFiles"
| "kindOf (ReadFile _) = KFiles"
| "kindOf (FetchUploadToken _) = KToken"
| "kindOf (FetchUpload _ _) = KUpload"
| "kindOf (FetchDeployments _ _ _) = KDeployments"
| "kindOf (FetchDeploymentsForm _ _ _) = KDeployments"
| "kindOf (Enqueue _) = KStream"
| "kindOf EnqueueDone = KStream"
| "kindOf Close = KStream"

definition kinds :: "call list \<Rightarrow> kind set" where
  "kinds cs = kindOf ` set cs"


section \<open>A concrete run\<close>

text \<open>Stand-ins for the library functions, and a world in which every step up to the
  bulk upload succeeds and the deployment-creation call answers with a non-success
  status and a JSON error body.\<close>

definition demoLib :: lib where
  "demoLib = \<lparr>md5 = (\<lambda>s. ''md5:'' @ s), sha256 = (\<lambda>s. ''sha256:'' @ s),
     toBase64 = (\<lambda>s. ''b64:'' @ s), stringify = (\<lambda>v. ''{}''), stringify2 = (\<lambda>v. ''{ }''),
     toStr = asString,
     pathJoin = (\<lambda>ps. case ps of [] \<Rightarrow> [] | p # qs \<Rightarrow> foldl (\<lambda>a q. a @ ''/'' @ q) p qs),
     generateAsync = (\<lambda>es. Inr (\<lambda>date. concat (map (\<lambda>(n, c). n @ ''@'' @ date n @ '':'' @ c @ '';'') es)))\<rparr>"

definition demoService :: service where
  "demoService = \<lparr>apiToken = ''secret'', accountId = ''acct''\<rparr>"

definition demoEnv :: "string \<Rightarrow> string option" where
  "demoEnv v = (if v = ''CLOUDFLARE_API_TOKEN'' then Some ''secret''
                else if v = ''CLOUDFLARE_ACCOUNT_ID'' then Some ''acct'' else None)"

definition demoFiles :: files where
  "demoFiles = \<lparr>html = ''<p>hi</p>'', css = ''p { color: red }'', js = []\<rparr>"

definition demoRequest :: json where
  "demoRequest = JObject [(''html'', JString ''<p>hi</p>''), (''css'', JString ''p { color: red }''),
     (''projectAlias'', JString ''demo'')]"

definition okResponse :: "json \<Rightarrow> response" where
  "okResponse b = \<lparr>ok = True, responseUrl = ''https://api.cloudflare.com/client/v4/'',
     statusText = ''OK'', body = Inr b\<rparr>"

definition rejectedResponse :: response where
  "rejectedResponse = \<lparr>ok = False,
     responseUrl = ''https://api.cloudflare.com/client/v4/accounts/acct/pages/projects/demo/deployments'',
     statusText = ''Bad Request'', body = Inr (JObject [(''success'', JBool False)])\<rparr>"

definition createdResponse :: response where
  "createdResponse = okResponse (JObject [(''result'',
     JObject [(''id'', JString ''d1''), (''url'', JString ''https://c678f41b.demo.pages.dev''),
              (''created_on'', JString ''2024-01-01T00:00:01Z'')])])"

definition demoWorld :: world where
  "demoWorld = \<lparr>projects_get = None, projects_get_route = None, projects_create = None,
     now_backup = ''2024-01-01T00:00:00.000Z'', now_manifest = ''2024-01-01T00:00:01.000Z'',
     now_result = ''2024-01-01T00:00:02.000Z'',
     zipDate_backup = (\<lambda>n. ''2024-01-01T00:00:00.000Z''),
     zipDate_upload = (\<lambda>n. ''2024-01-01T00:00:01.000Z''),
     zipDate_manifest = (\<lambda>n. ''2024-01-01T00:00:02.000Z''),
     cwd = ''/srv'', mkdir = (\<lambda>p. None), writeFile = (\<lambda>p. None),
     readdir = (\<lambda>p. Inr [''index.html'', ''styles.css'']),
     readFile = (\<lambda>p. Inr ''file''),
     fetch_upload_token =
       Inr (okResponse (JObject [(''result'', JObject [(''jwt'', JString ''token'')])])),
     fetch_upload = Inr (okResponse (JObject [(''success'', JBool True)])),
     fetch_deployments = Inr createdResponse\<rparr>"


definition readOnlyWorld :: world where
  "readOnlyWorld =
     demoWorld\<lparr>mkdir := (\<lambda>p. Some (ErrorObject ''EROFS: read-only file system, mkdir'' None))\<rparr>"

definition refusedWorld :: world where
  "refusedWorld = demoWorld\<lparr>fetch_upload_token := Inr rejectedResponse\<rparr>"

text \<open>The calls of the run of \<^verbatim>\<open>deployPage\<close> in the first world, in which one second
  passes between the building of the archive that is uploaded and the building of the
  archive whose digest goes into the manifest.\<close>

definition demoCalls :: "call list" where
  "demoCalls = fst (deployPage demoLib demoWorld demoService (Some ''demo'') demoFiles)"

section \<open>What the statements speak of\<close>

text \<open>The two status events with which the first route opens every stream.\<close>

definition statusEvents :: "string \<Rightarrow> json list" where
  "statusEvents alias =
     [JObject [(''type'', JString ''status''), (''message'', JString ''Preparing deployment...''),
               (''progress'', JNumber 10)],
      JObject [(''type'', JString ''status''),
               (''message'', JString (''Deploying to project: '' @ alias)),
               (''progress'', JNumber 30), (''projectName'', JString alias)]]"

text \<open>
  A manifest \<open>m\<close> agrees with the uploaded entries \<open>us\<close>: its keys are the paths, with a
  leading slash, of the prepared files, the archive entry and \<open>/manifest.json\<close>; and
  every value is the key of an uploaded entry and the MD5 digest of the bytes uploaded
  under that key. The bytes of an entry are its value read as base64, which \<open>decode\<close>
  does.
\<close>

definition manifestAgrees ::
  "lib \<Rightarrow> (string \<Rightarrow> string) \<Rightarrow> string \<Rightarrow> deployment_files \<Rightarrow> manifest \<Rightarrow> upload_file list \<Rightarrow> bool" where
  "manifestAgrees L decode finalProjectName deploymentFiles m us =
     (set (map fst m) =
        set (map (\<lambda>(fileName, fileData). ''/'' @ fileName) deploymentFiles) \<union>
        {''/'' @ finalProjectName @ ''-deployment.zip'', ''/manifest.json''} \<and>
      list_all (\<lambda>(path, v). list_ex (\<lambda>f. key f = v \<and> md5 L (decode (value64 f)) = v) us) m)"

text \<open>The reading of base64 that goes with the stand-in \<open>toBase64 demoLib\<close>.\<close>

definition demoDecode :: "string \<Rightarrow> string" where
  "demoDecode s = drop 4 s"

section \<open>Properties of the name sanitizer\<close>

lemma isNameChar_lower: "isNameChar c \<Longrightarrow> toLowerCase_char c = c"
  unfolding isNameChar_def isAlnum_def toLowerCase_char_def
  by (auto simp: code_def)

lemma isAlnum_not_ws: "isAlnum c \<Longrightarrow> \<not> isWhiteSpace c"
  by (auto simp: isAlnum_def isWhiteSpace_def)

lemma isAlnum_not_hyphen: "isAlnum c \<Longrightarrow> c \<noteq> CHR ''-''"
  by (auto simp: isAlnum_def code_def)

lemma set_collapseHyphens: "set (collapseHyphens s) \<subseteq> set s"
  by (induction s rule: collapseHyphens.induct) auto

lemma collapse_id: "\<not> hasDoubleHyphen s \<Longrightarrow> collapseHyphens s = s"
  by (induction s rule: collapseHyphens.induct) auto

lemma both_ends_dropWhile:
  assumes "s \<noteq> []" "\<not> P (hd s)" "\<not> P (last s)"
  shows "rev (dropWhile P (rev (dropWhile P s))) = s"
proof -
  from assms have 1: "dropWhile P s = s" by (cases s) auto
  from assms have "rev s \<noteq> []" "\<not> P (hd (rev s))" by (auto simp: hd_rev)
  then have "dropWhile P (rev s) = rev s" by (cases "rev s") auto
  with 1 show ?thesis by simp
qed

lemma startsAlnum_hd: "startsAlnum s \<longleftrightarrow> s \<noteq> [] \<and> isAlnum (hd s)"
  by (cases s) (auto simp: startsAlnum_def)

lemma endsAlnum_last: "endsAlnum s \<longleftrightarrow> s \<noteq> [] \<and> isAlnum (last s)"
  by (cases s rule: rev_cases) (auto simp: endsAlnum_def)

lemma ends_dropWhile_rev:
  "rev (dropWhile P (rev t)) \<noteq> [] \<Longrightarrow> \<not> P (last (rev (dropWhile P (rev t))))"
  by (metis hd_dropWhile last_rev rev_is_Nil_conv)

lemma prefix_dropWhile_rev:
  "t = rev (dropWhile P (rev t)) @ rev (takeWhile P (rev t))"
  by (metis rev_append rev_rev_ident takeWhile_dropWhile_id)

lemma hd_dropWhile_rev:
  assumes "rev (dropWhile P (rev t)) \<noteq> []"
  shows "hd (rev (dropWhile P (rev t))) = hd t"
  using assms prefix_dropWhile_rev[of t P] by (metis hd_append2)

lemma set_trimHyphens: "set (trimHyphens s) \<subseteq> set s"
proof -
  have "set (trimHyphens s) \<subseteq> set (dropWhile isHyphen s)"
    unfolding trimHyphens_def using set_dropWhileD by fastforce
  also have "\<dots> \<subseteq> set s" using set_dropWhileD by fastforce
  finally show ?thesis .
qed

lemma trimHyphens_ends:
  assumes "trimHyphens s \<noteq> []"
  shows "\<not> isHyphen (hd (trimHyphens s))" and "\<not> isHyphen (last (trimHyphens s))"
proof -
  let ?t = "dropWhile isHyphen s"
  from assms have ne: "rev (dropWhile isHyphen (rev ?t)) \<noteq> []" by (simp add: trimHyphens_def)
  have "?t \<noteq> []"
  proof
    assume "?t = []"
    with ne show False by simp
  qed
  then have "\<not> isHyphen (hd ?t)" by (rule hd_dropWhile)
  with hd_dropWhile_rev[OF ne] show "\<not> isHyphen (hd (trimHyphens s))"
    by (simp add: trimHyphens_def)
  from ends_dropWhile_rev[OF ne] show "\<not> isHyphen (last (trimHyphens s))"
    by (simp add: trimHyphens_def)
qed

lemma cleanName_chars: "list_all isNameChar (cleanName x)"
proof -
  have "set (cleanName x) \<subseteq> set (replaceInvalid (trim (toLowerCase x)))"
    unfolding cleanName_def using set_trimHyphens set_collapseHyphens by (meson subset_trans)
  moreover have "\<forall>c \<in> set (replaceInvalid (trim (toLowerCase x))). isNameChar c"
    by (auto simp: replaceInvalid_def isNameChar_def)
  ultimately show ?thesis by (auto simp: list_all_iff)
qed

lemma cleanName_ends: "cleanName x = [] \<or> (startsAlnum (cleanName x) \<and> endsAlnum (cleanName x))"
proof (cases "cleanName x = []")
  case False
  then have ne: "trimHyphens (collapseHyphens (replaceInvalid (trim (toLowerCase x)))) \<noteq> []"
    by (simp add: cleanName_def)
  from trimHyphens_ends[OF ne] have "\<not> isHyphen (hd (cleanName x))" "\<not> isHyphen (last (cleanName x))"
    by (simp_all add: cleanName_def)
  moreover from False cleanName_chars[of x] have "isNameChar (hd (cleanName x))" "isNameChar (last (cleanName x))"
    by (auto simp: list_all_iff)
  ultimately show ?thesis using False by (auto simp: startsAlnum_hd endsAlnum_last isNameChar_def isHyphen_def)
qed simp

lemma startsAlnum_Cons: "startsAlnum (c # s) = isAlnum c"
  by (simp add: startsAlnum_def)

lemma isAlnum_w: "isAlnum CHR ''w''"
  by (simp add: isAlnum_def code_def)

lemma endsAlnum_Cons: "endsAlnum (c # s) = (if s = [] then isAlnum c else endsAlnum s)"
  by (cases s rule: rev_cases) (simp_all add: endsAlnum_def)

lemma endsAlnum_app: "endsAlnum (s @ ''-app'')"
  by (simp add: endsAlnum_def isAlnum_def code_def)

lemma startsAlnum_append: "startsAlnum s \<Longrightarrow> startsAlnum (s @ t)"
  by (cases s) (auto simp: startsAlnum_def)

lemma endsAlnum_append: "endsAlnum t \<Longrightarrow> endsAlnum (s @ t)"
  by (cases t rule: rev_cases) (auto simp: endsAlnum_def)

lemma nameChar_lits:
  "isNameChar CHR ''-''" "isNameChar CHR ''a''" "isNameChar CHR ''p''" "isNameChar CHR ''w''"
  "isNameChar CHR ''e''" "isNameChar CHR ''b''" "isNameChar CHR ''m''" "isNameChar CHR ''i''"
  "isNameChar CHR ''n''" "isNameChar CHR ''t''"
  by (simp_all add: isNameChar_def isAlnum_def code_def)

lemma ensureAlnumEnds_shape:
  assumes "list_all isNameChar s"
  shows "list_all isNameChar (ensureAlnumEnds s)"
    and "startsAlnum (ensureAlnumEnds s)"
    and "endsAlnum (ensureAlnumEnds s)"
  using assms
  by (auto simp: ensureAlnumEnds_def Let_def startsAlnum_Cons isAlnum_w endsAlnum_app
      endsAlnum_Cons startsAlnum_append nameChar_lits)

lemma ensureAlnumEnds_id: "startsAlnum s \<Longrightarrow> endsAlnum s \<Longrightarrow> ensureAlnumEnds s = s"
  by (simp add: ensureAlnumEnds_def)

lemma list_all_take: "list_all P s \<Longrightarrow> list_all P (take n s)"
  by (auto simp: list_all_iff dest: in_set_takeD)

lemma startsAlnum_take: "startsAlnum s \<Longrightarrow> 0 < n \<Longrightarrow> startsAlnum (take n s)"
  by (cases s; cases n) (auto simp: startsAlnum_def)

lemma truncateName_shape:
  assumes "list_all isNameChar s" "startsAlnum s" "endsAlnum s"
  shows "list_all isNameChar (truncateName s)"
    and "startsAlnum (truncateName s)"
    and "endsAlnum (truncateName s)"
    and "length (truncateName s) \<le> 59"
    and "58 < length (truncateName s) \<Longrightarrow> take 55 (truncateName s) @ ''-app'' = truncateName s"
proof -
  show "list_all isNameChar (truncateName s)"
    using assms(1) list_all_take[of isNameChar s 55]
    by (simp add: truncateName_def nameChar_lits)
  show "startsAlnum (truncateName s)"
    using assms(2) by (simp add: truncateName_def startsAlnum_append startsAlnum_take)
  show "endsAlnum (truncateName s)"
    using assms(3) by (simp add: truncateName_def endsAlnum_app)
  show "length (truncateName s) \<le> 59"
    by (simp add: truncateName_def)
  show "58 < length (truncateName s) \<Longrightarrow> take 55 (truncateName s) @ ''-app'' = truncateName s"
    by (simp add: truncateName_def split: if_splits)
qed

lemma ensureMinLength_shape:
  assumes "list_all isNameChar s" "startsAlnum s" "endsAlnum s"
  shows "list_all isNameChar (ensureMinLength s)"
    and "startsAlnum (ensureMinLength s)"
    and "endsAlnum (ensureMinLength s)"
    and "3 \<le> length (ensureMinLength s)"
    and "length s \<le> 59 \<Longrightarrow> length (ensureMinLength s) \<le> 59"
    and "58 < length (ensureMinLength s) \<Longrightarrow> ensureMinLength s = s"
proof -
  show "list_all isNameChar (ensureMinLength s)"
    using assms(1) by (simp add: ensureMinLength_def nameChar_lits)
  show "startsAlnum (ensureMinLength s)"
    using assms(2) by (simp add: ensureMinLength_def startsAlnum_Cons isAlnum_w)
  show "endsAlnum (ensureMinLength s)"
    using assms(3) by (simp add: ensureMinLength_def endsAlnum_Cons endsAlnum_app)
  show "3 \<le> length (ensureMinLength s)"
    by (simp add: ensureMinLength_def)
  show "length s \<le> 59 \<Longrightarrow> length (ensureMinLength s) \<le> 59"
    by (simp add: ensureMinLength_def)
  show "58 < length (ensureMinLength s) \<Longrightarrow> ensureMinLength s = s"
    by (simp add: ensureMinLength_def split: if_splits)
qed

lemma sanitizeProjectName_shape:
  shows "list_all isNameChar (sanitizeProjectName x)"
    and "startsAlnum (sanitizeProjectName x)"
    and "endsAlnum (sanitizeProjectName x)"
    and "3 \<le> length (sanitizeProjectName x)"
    and "length (sanitizeProjectName x) \<le> 59"
    and "58 < length (sanitizeProjectName x) \<Longrightarrow>
           take 55 (sanitizeProjectName x) @ ''-app'' = sanitizeProjectName x"
proof -
  let ?a = "ensureAlnumEnds (cleanName x)"
  let ?t = "truncateName ?a"
  note a = ensureAlnumEnds_shape[OF cleanName_chars[of x]]
  note t = truncateName_shape[OF a]
  note m = ensureMinLength_shape[OF t(1,2,3)]
  show "list_all isNameChar (sanitizeProjectName x)"
    using m(1) by (simp add: sanitizeProjectName_def)
  show "startsAlnum (sanitizeProjectName x)"
    using m(2) by (simp add: sanitizeProjectName_def)
  show "endsAlnum (sanitizeProjectName x)"
    using m(3) by (simp add: sanitizeProjectName_def)
  show "3 \<le> length (sanitizeProjectName x)"
    using m(4) by (simp add: sanitizeProjectName_def)
  show "length (sanitizeProjectName x) \<le> 59"
    using m(5)[OF t(4)] by (simp add: sanitizeProjectName_def)
  assume "58 < length (sanitizeProjectName x)"
  then have big: "58 < length (ensureMinLength ?t)" by (simp add: sanitizeProjectName_def)
  from m(6)[OF big] have eq: "ensureMinLength ?t = ?t" .
  with big have "58 < length ?t" by simp
  from t(5)[OF this] eq
  show "take 55 (sanitizeProjectName x) @ ''-app'' = sanitizeProjectName x"
    by (simp add: sanitizeProjectName_def)
qed

lemma cleanName_id:
  assumes "list_all isNameChar y" "startsAlnum y" "endsAlnum y" "\<not> hasDoubleHyphen y"
  shows "cleanName y = y"
proof -
  from assms(2,3) have ne: "y \<noteq> []" and h: "isAlnum (hd y)" and l: "isAlnum (last y)"
    by (simp_all add: startsAlnum_hd endsAlnum_last)
  from assms(1) have 1: "toLowerCase y = y"
    by (auto simp: toLowerCase_def list_all_iff isNameChar_lower intro: map_idI)
  from ne h l have 2: "trim y = y"
    unfolding trim_def by (intro both_ends_dropWhile) (simp_all add: isAlnum_not_ws)
  from assms(1) have 3: "replaceInvalid y = y"
    by (auto simp: replaceInvalid_def list_all_iff intro: map_idI)
  from assms(4) have 4: "collapseHyphens y = y" by (rule collapse_id)
  from ne h l have 5: "trimHyphens y = y"
    unfolding trimHyphens_def
    by (intro both_ends_dropWhile) (auto simp: isHyphen_def dest: isAlnum_not_hyphen)
  show ?thesis by (simp add: cleanName_def 1 2 3 4 5)
qed

text \<open>
  C3. The claim is that every sanitized name has between 3 and 58 characters, all of them
  lowercase letters, digits or hyphens, the first and the last a letter or digit. The
  source's comment asks for at most 58 characters too, but the truncation keeps 55
  characters and appends four: a name of 59 letters comes back 59 characters long.
\<close>

theorem sanitizeProjectName_59_chars:
  "sanitizeProjectName (replicate 59 (CHR ''a'')) = replicate 55 (CHR ''a'') @ ''-app'' \<and>
   length (sanitizeProjectName (replicate 59 (CHR ''a''))) = 59"
  by code_simp

text \<open>
  C4. The claim is that sanitizing twice gives what sanitizing once gives. It fails where
  the first pass leaves two hyphens next to each other (a name with no letter or digit
  becomes \<open>webmint--app\<close>, and the second pass collapses the pair).
\<close>

theorem sanitizeProjectName_not_idempotent:
  "sanitizeProjectName (sanitizeProjectName ''-'') \<noteq> sanitizeProjectName ''-''"
  by code_simp

lemma hd_collapseHyphens: "hd (collapseHyphens s) = hd s"
  by (induction s rule: collapseHyphens.induct) auto

lemma collapseHyphens_Nil: "collapseHyphens s = [] \<longleftrightarrow> s = []"
  by (induction s rule: collapseHyphens.induct) auto

lemma last_collapseHyphens: "last (collapseHyphens s) = last s"
  by (induction s rule: collapseHyphens.induct) (auto simp: collapseHyphens_Nil)

lemma length_collapseHyphens_le: "length (collapseHyphens s) \<le> length s"
  by (induction s rule: collapseHyphens.induct) auto

lemma length_collapseHyphens_less:
  "hasDoubleHyphen s \<Longrightarrow> length (collapseHyphens s) < length s"
proof (induction s rule: collapseHyphens.induct)
  case (1 c d cs)
  then show ?case using length_collapseHyphens_le[of "d # cs"] by auto
qed simp_all

lemma collapseHyphens_no_double: "\<not> hasDoubleHyphen (collapseHyphens s)"
proof (induction s rule: collapseHyphens.induct)
  case (1 c d cs)
  show ?case
  proof (cases "c = CHR ''-'' \<and> d = CHR ''-''")
    case True
    with 1 show ?thesis by simp
  next
    case False
    have h: "hd (collapseHyphens (d # cs)) = d" by (simp add: hd_collapseHyphens)
    have ne: "collapseHyphens (d # cs) \<noteq> []" by (simp add: collapseHyphens_Nil)
    then obtain e es where e: "collapseHyphens (d # cs) = e # es" by (cases "collapseHyphens (d # cs)") auto
    with h have "e = d" by simp
    with False 1 e show ?thesis by auto
  qed
qed simp_all

lemma hasDoubleHyphen_Cons:
  "hasDoubleHyphen (c # s) = ((c = CHR ''-'' \<and> s \<noteq> [] \<and> hd s = CHR ''-'') \<or> hasDoubleHyphen s)"
  by (cases s) auto

lemma hasDoubleHyphen_snoc:
  "hasDoubleHyphen (s @ [c]) = ((c = CHR ''-'' \<and> s \<noteq> [] \<and> last s = CHR ''-'') \<or> hasDoubleHyphen s)"
  by (induction s rule: hasDoubleHyphen.induct) auto

lemma no_double_app:
  "\<not> hasDoubleHyphen c \<Longrightarrow> endsAlnum c \<Longrightarrow> \<not> hasDoubleHyphen (c @ ''-app'')"
proof (induction c)
  case Nil
  then show ?case by (simp add: endsAlnum_def)
next
  case (Cons a c)
  show ?case
  proof (cases "c = []")
    case True
    with Cons.prems(2) have "a \<noteq> CHR ''-''"
      by (auto simp: endsAlnum_Cons dest: isAlnum_not_hyphen)
    with True show ?thesis by simp
  next
    case False
    with Cons.prems have "\<not> hasDoubleHyphen c" "endsAlnum c"
      and "\<not> (a = CHR ''-'' \<and> hd c = CHR ''-'')"
      by (simp_all add: hasDoubleHyphen_Cons endsAlnum_Cons)
    with Cons.IH False show ?thesis
      by (simp add: hasDoubleHyphen_Cons[of a "c @ ''-app''"])
  qed
qed

lemma no_double_webmint:
  "\<not> hasDoubleHyphen s \<Longrightarrow> startsAlnum s \<Longrightarrow> \<not> hasDoubleHyphen (''webmint-'' @ s)"
  by (cases s) (auto simp: startsAlnum_def dest: isAlnum_not_hyphen)

lemma name_prefix_id:
  assumes "list_all isNameChar y" "startsAlnum y" "endsAlnum y"
  shows "replaceInvalid (trim (toLowerCase y)) = y"
proof -
  from assms(2,3) have ne: "y \<noteq> []" and h: "isAlnum (hd y)" and l: "isAlnum (last y)"
    by (simp_all add: startsAlnum_hd endsAlnum_last)
  from assms(1) have 1: "toLowerCase y = y"
    by (auto simp: toLowerCase_def list_all_iff isNameChar_lower intro: map_idI)
  from ne h l have 2: "trim y = y"
    unfolding trim_def by (intro both_ends_dropWhile) (simp_all add: isAlnum_not_ws)
  from assms(1) have 3: "replaceInvalid y = y"
    by (auto simp: replaceInvalid_def list_all_iff intro: map_idI)
  show ?thesis by (simp add: 1 2 3)
qed

lemma sanitize_again:
  assumes "list_all isNameChar y" "startsAlnum y" "endsAlnum y" "length y \<le> 59"
    and "hasDoubleHyphen y"
  shows "\<not> hasDoubleHyphen (sanitizeProjectName y)"
proof -
  let ?c = "collapseHyphens y"
  from assms(2,3) have ne: "y \<noteq> []" and h: "isAlnum (hd y)" and l: "isAlnum (last y)"
    by (simp_all add: startsAlnum_hd endsAlnum_last)
  have cne: "?c \<noteq> []" using ne by (simp add: collapseHyphens_Nil)
  have ch: "isAlnum (hd ?c)" and cl: "isAlnum (last ?c)"
    using h l by (simp_all add: hd_collapseHyphens last_collapseHyphens)
  have t: "trimHyphens ?c = ?c"
    unfolding trimHyphens_def using cne ch cl
    by (intro both_ends_dropWhile) (auto simp: isHyphen_def dest: isAlnum_not_hyphen)
  have clean: "cleanName y = ?c"
    by (simp add: cleanName_def name_prefix_id[OF assms(1,2,3)] t)
  have cs: "startsAlnum ?c" and ce: "endsAlnum ?c"
    using cne ch cl by (simp_all add: startsAlnum_hd endsAlnum_last)
  have a: "ensureAlnumEnds ?c = ?c" using cs ce by (rule ensureAlnumEnds_id)
  have "length ?c < length y" using assms(5) by (rule length_collapseHyphens_less)
  with assms(4) have tr: "truncateName ?c = ?c" by (simp add: truncateName_def)
  have s: "sanitizeProjectName y = ensureMinLength ?c"
    by (simp add: sanitizeProjectName_def clean a tr)
  have nd: "\<not> hasDoubleHyphen ?c" by (rule collapseHyphens_no_double)
  show ?thesis
  proof (cases "length ?c < 3")
    case True
    have "\<not> hasDoubleHyphen (?c @ ''-app'')" using nd ce by (rule no_double_app)
    moreover have "startsAlnum (?c @ ''-app'')" using cs by (rule startsAlnum_append)
    ultimately have "\<not> hasDoubleHyphen (''webmint-'' @ ?c @ ''-app'')"
      by (rule no_double_webmint)
    with True show ?thesis by (simp add: s ensureMinLength_def)
  next
    case False
    with nd show ?thesis by (simp add: s ensureMinLength_def)
  qed
qed

lemma sanitize_twice_differs:
  assumes "hasDoubleHyphen (sanitizeProjectName x)"
  shows "sanitizeProjectName (sanitizeProjectName x) \<noteq> sanitizeProjectName x"
proof
  assume e: "sanitizeProjectName (sanitizeProjectName x) = sanitizeProjectName x"
  note s = sanitizeProjectName_shape[of x]
  from sanitize_again[OF s(1,2,3,5) assms] e assms show False by simp
qed

lemma sanitize_once_is_enough:
  assumes "\<not> hasDoubleHyphen (sanitizeProjectName x)"
  shows "sanitizeProjectName (sanitizeProjectName x) = sanitizeProjectName x"
proof -
  let ?y = "sanitizeProjectName x"
  note s = sanitizeProjectName_shape[of x]
  have c: "cleanName ?y = ?y" using s(1,2,3) assms by (rule cleanName_id)
  have a: "ensureAlnumEnds ?y = ?y" using s(2,3) by (rule ensureAlnumEnds_id)
  have t: "truncateName ?y = ?y" using s(6) by (simp add: truncateName_def)
  have m: "ensureMinLength ?y = ?y" using s(4) by (simp add: ensureMinLength_def)
  have "sanitizeProjectName ?y = ensureMinLength (truncateName (ensureAlnumEnds (cleanName ?y)))"
    by (simp add: sanitizeProjectName_def)
  also have "\<dots> = ?y" by (simp only: c a t m)
  finally show ?thesis .
qed

text \<open>
  C4, as amended: whenever the sanitized name has no two hyphens next to each other,
  sanitizing it again changes nothing.
\<close>

theorem sanitizeProjectName_idempotent:
  assumes "\<not> hasDoubleHyphen (sanitizeProjectName x)"
  shows "sanitizeProjectName (sanitizeProjectName x) = sanitizeProjectName x"
  using assms by (rule sanitize_once_is_enough)

theorem sanitizeProjectName_idempotent_witness:
  "\<not> hasDoubleHyphen (sanitizeProjectName ''My Project'') \<and>
   sanitizeProjectName (sanitizeProjectName ''My Project'') = sanitizeProjectName ''My Project''"
proof -
  have h: "\<not> hasDoubleHyphen (sanitizeProjectName ''My Project'')" by code_simp
  from h sanitizeProjectName_idempotent[OF h] show ?thesis by simp
qed

text \<open>The condition is the exact one: with two hyphens next to each other in the
  sanitized name, the second pass gives another name.\<close>

lemma sanitize_idempotent_iff:
  "(sanitizeProjectName (sanitizeProjectName x) = sanitizeProjectName x) =
   (\<not> hasDoubleHyphen (sanitizeProjectName x))"
  using sanitize_once_is_enough sanitize_twice_differs by blast

section \<open>Properties of the packaging\<close>

lemma trim_Nil: "trim [] = []"
  by (simp add: trim_def)

text \<open>
  C7. For all strings html, css and js the prepared file set has an \<open>index.html\<close> entry,
  a \<open>styles.css\<close> entry exactly when the trimmed css is not empty, a \<open>script.js\<close> entry
  exactly when the trimmed js is not empty, and no other entry.
\<close>

theorem prepareDeploymentFiles_entries:
  "map_of (prepareDeploymentFiles f) ''index.html'' =
     Some \<lparr>content = createFullHtmlPage (html f) (css f) (js f), type = ''text/html''\<rparr> \<and>
   (map_of (prepareDeploymentFiles f) ''styles.css'' =
      (if trim (css f) \<noteq> [] then Some \<lparr>content = trim (css f), type = ''text/css''\<rparr> else None)) \<and>
   (map_of (prepareDeploymentFiles f) ''script.js'' =
      (if trim (js f) \<noteq> []
       then Some \<lparr>content = trim (js f), type = ''application/javascript''\<rparr> else None)) \<and>
   set (map fst (prepareDeploymentFiles f)) \<subseteq> {''index.html'', ''styles.css'', ''script.js''} \<and>
   distinct (map fst (prepareDeploymentFiles f))"
proof -
  have c: "css f = [] \<Longrightarrow> trim (css f) = []" and j: "js f = [] \<Longrightarrow> trim (js f) = []"
    by (simp_all add: trim_Nil)
  show ?thesis using c j by (auto simp: prepareDeploymentFiles_def)
qed

section \<open>Properties of the service\<close>

subsection \<open>Computations and the calls they make\<close>

lemma io_simps [simp]:
  "fst (ret a) = []" "snd (ret a) = Inr a"
  "fst (raise e) = []" "snd (raise e) = Inl e"
  "fst (lift r) = []" "snd (lift r) = r"
  "fst (perform c r) = [c]" "snd (perform c r) = r"
  by (simp_all add: ret_def raise_def lift_def perform_def)

lemma fst_andThen:
  "fst (andThen m f) = (case snd m of Inl e \<Rightarrow> fst m | Inr a \<Rightarrow> fst m @ fst (f a))"
  by (cases m; cases "snd m") (auto simp: andThen_def split: sum.splits prod.splits)

lemma snd_andThen:
  "snd (andThen m f) = (case snd m of Inl e \<Rightarrow> Inl e | Inr a \<Rightarrow> snd (f a))"
  by (cases m; cases "snd m") (auto simp: andThen_def split: sum.splits prod.splits)

lemma fst_tryCatch:
  "fst (tryCatch m h) = (case snd m of Inl e \<Rightarrow> fst m @ fst (h e) | Inr a \<Rightarrow> fst m)"
  by (cases m; cases "snd m") (auto simp: tryCatch_def split: sum.splits prod.splits)

lemma snd_tryCatch:
  "snd (tryCatch m h) = (case snd m of Inl e \<Rightarrow> snd (h e) | Inr a \<Rightarrow> Inr a)"
  by (cases m; cases "snd m") (auto simp: tryCatch_def split: sum.splits prod.splits)

lemma andThen_Inl: "snd m = Inl e \<Longrightarrow> snd (andThen m f) = Inl e"
  by (simp add: snd_andThen)

lemma kinds_simps [simp]: "kinds [] = {}" "kinds (c # cs) = insert (kindOf c) (kinds cs)"
  "kinds (cs @ ds) = kinds cs \<union> kinds ds"
  by (auto simp: kinds_def)

lemma kinds_andThen:
  assumes "kinds (fst m) \<subseteq> K" "\<And>a. kinds (fst (f a)) \<subseteq> K"
  shows "kinds (fst (andThen m f)) \<subseteq> K"
  using assms by (auto simp: fst_andThen split: sum.splits)

lemma kinds_tryCatch:
  assumes "kinds (fst m) \<subseteq> K" "\<And>e. kinds (fst (h e)) \<subseteq> K"
  shows "kinds (fst (tryCatch m h)) \<subseteq> K"
  using assms by (auto simp: fst_tryCatch split: sum.splits)

lemma kinds_ensureProject: "kinds (fst (ensureProject W n)) \<subseteq> {KProjects}"
  unfolding ensureProject_def
  by (intro kinds_tryCatch) (auto split: thrown.splits)

lemma kinds_writeFiles: "kinds (fst (writeFiles L W d fs)) \<subseteq> {KFiles}"
proof (induction fs)
  case Nil
  then show ?case by simp
next
  case (Cons p fs)
  obtain a b where p: "p = (a, b)" by (cases p)
  show ?case unfolding p writeFiles.simps
    by (rule kinds_andThen) (simp_all add: Cons.IH)
qed

lemma kinds_createLocalBackupAndZip:
  "kinds (fst (createLocalBackupAndZip L W fs n)) \<subseteq> {KFiles}"
  unfolding createLocalBackupAndZip_def Let_def
  by (intro kinds_tryCatch kinds_andThen kinds_writeFiles) auto

lemma kinds_getUploadToken: "kinds (fst (getUploadToken L W S n)) \<subseteq> {KToken}"
  unfolding getUploadToken_def
  by (intro kinds_andThen) (auto simp: fst_andThen split: sum.splits)

lemma kinds_prepareUploadFiles: "kinds (fst (prepareUploadFiles L W fs)) = {}"
  unfolding prepareUploadFiles_def Let_def
  by (auto simp: fst_andThen split: sum.splits)

lemma kinds_uploadFilesCall: "kinds (fst (uploadFilesCall L W t us)) \<subseteq> {KUpload}"
  unfolding uploadFilesCall_def
  by (intro kinds_andThen) (auto simp: fst_andThen split: sum.splits)

lemma kinds_buildManifestData: "kinds (fst (buildManifestData L W n fs)) = {}"
  unfolding buildManifestData_def Let_def
  by (auto simp: fst_andThen split: sum.splits)

lemma kinds_createDeployment: "kinds (fst (createDeployment L W S n m)) \<subseteq> {KDeployments}"
  unfolding createDeployment_def
  by (intro kinds_andThen) (auto simp: fst_andThen split: sum.splits)

lemma kinds_uploadPhase:
  "kinds (fst (uploadPhase L W S n fs)) \<subseteq> {KProjects, KFiles, KToken, KUpload}"
  unfolding uploadPhase_def Let_def
  by (intro kinds_andThen subset_trans[OF kinds_ensureProject]
      subset_trans[OF kinds_createLocalBackupAndZip] subset_trans[OF kinds_getUploadToken]
      subset_trans[OF kinds_uploadFilesCall]) (auto simp: kinds_prepareUploadFiles)

lemma kinds_deployPage_try:
  "kinds (fst (deployPage_try L W S name fs)) \<subseteq> {KProjects, KFiles, KToken, KUpload, KDeployments}"
  unfolding deployPage_try_def Let_def
  by (intro kinds_andThen subset_trans[OF kinds_uploadPhase]
      subset_trans[OF kinds_createDeployment]) (auto simp: kinds_buildManifestData)

lemma fst_deployPage: "fst (deployPage L W S name fs) = fst (deployPage_try L W S name fs)"
  by (simp add: deployPage_def fst_tryCatch split: sum.splits)

lemma snd_deployPage:
  "snd (deployPage L W S name fs) =
     (case snd (deployPage_try L W S name fs) of
        Inl err \<Rightarrow> Inr (failure (case err of ErrorObject m _ \<Rightarrow> m
                                | OtherValue \<Rightarrow> ''Failed to deploy page''))
      | Inr r \<Rightarrow> Inr r)"
  by (simp add: deployPage_def snd_tryCatch split: sum.splits)

subsection \<open>The steps of deployPage\<close>

lemmas io_splits = fst_andThen snd_andThen fst_tryCatch snd_tryCatch

lemma fst_uploadFilesCall: "fst (uploadFilesCall L W tok us) = [FetchUpload tok us]"
  by (simp add: uploadFilesCall_def io_splits split: sum.splits)

lemma fst_getUploadToken:
  "fst (getUploadToken L W S n) = [FetchUploadToken (uploadTokenUrl (accountId S) n)]"
  by (simp add: getUploadToken_def io_splits split: sum.splits)

lemma fst_prepareUploadFiles: "fst (prepareUploadFiles L W dfs) = []"
  by (simp add: prepareUploadFiles_def Let_def io_splits split: sum.splits)

lemma fst_buildManifestData: "fst (buildManifestData L W n dfs) = []"
  by (simp add: buildManifestData_def Let_def io_splits split: sum.splits)

lemma fst_createDeployment:
  "fst (createDeployment L W S n m) = [FetchDeployments (deploymentsUrl (accountId S) n) m ''main'']"
  by (simp add: createDeployment_def io_splits split: sum.splits)

lemma uploadPhase_Inr:
  assumes "snd (uploadPhase L W S n fs) = Inr dfs"
  shows "dfs = prepareDeploymentFiles fs"
    and "snd (ensureProject W n) = Inr ()"
    and "\<exists>b. snd (createLocalBackupAndZip L W dfs n) = Inr b"
    and "\<exists>tok us res. snd (getUploadToken L W S n) = Inr tok \<and>
           snd (prepareUploadFiles L W dfs) = Inr us \<and>
           snd (uploadFilesCall L W tok us) = Inr res \<and>
           FetchUpload tok us \<in> set (fst (uploadPhase L W S n fs))"
  using assms
  by (auto simp: uploadPhase_def Let_def io_splits fst_uploadFilesCall split: sum.splits)

lemma prepareUploadFiles_Inr:
  assumes "snd (prepareUploadFiles L W dfs) = Inr us"
  shows "\<exists>ih z. map_of dfs ''index.html'' = Some ih \<and>
           generateAsync L (zipEntries dfs) = Inr z \<and>
           us = [uploadEntry (md5 L (content ih)) (toBase64 L (content ih)) ''text/html'']
                @ optionalUpload L dfs ''script.js'' ''application/javascript''
                @ optionalUpload L dfs ''styles.css'' ''text/css''
                @ [uploadEntry (md5 L (stringify L (sha256Manifest L dfs)))
                     (toBase64 L (stringify2 L (sha256Manifest L dfs))) ''application/json'']
                @ [uploadEntry (md5 L (z (zipDate_upload W))) (toBase64 L (z (zipDate_upload W)))
                     ''application/zip'']"
  using assms
  by (auto simp: prepareUploadFiles_def Let_def io_splits split: sum.splits option.splits)

lemma buildManifestData_Inr:
  assumes "generateAsync L (zipEntries dfs) = Inr z"
  shows "snd (buildManifestData L W n dfs) =
     Inr (assign ''/manifest.json'' (md5 L (stringify2 L (sha256Manifest L dfs)))
            (assign (''/'' @ n @ ''-deployment.zip'') (md5 L (z (zipDate_manifest W)))
               (fileHashes L dfs)))"
  using assms by (simp add: buildManifestData_def Let_def io_splits)

lemma buildManifestData_Inl:
  assumes "generateAsync L (zipEntries dfs) = Inl e"
  shows "snd (buildManifestData L W n dfs) = Inl e"
  using assms by (simp add: buildManifestData_def Let_def io_splits)


lemma uploadPhase_zip:
  assumes "snd (uploadPhase L W S n fs) = Inr dfs"
  shows "\<exists>z. generateAsync L (zipEntries dfs) = Inr z"
proof -
  from uploadPhase_Inr(4)[OF assms] obtain us where "snd (prepareUploadFiles L W dfs) = Inr us"
    by blast
  from prepareUploadFiles_Inr[OF this] show ?thesis by blast
qed


subsection \<open>The events of the first streaming route\<close>

lemma enqueued_append: "enqueued (xs @ ys) = enqueued xs @ enqueued ys"
  by (induction xs rule: enqueued.induct) simp_all

lemma enqueued_noStream: "KStream \<notin> kinds cs \<Longrightarrow> enqueued cs = []"
  by (induction cs rule: enqueued.induct) simp_all

lemma kinds_deployPage:
  "kinds (fst (deployPage L W S name fs)) \<subseteq> {KProjects, KFiles, KToken, KUpload, KDeployments}"
  by (simp add: fst_deployPage kinds_deployPage_try)

lemma enqueued_deployPage: "enqueued (fst (deployPage L W S name fs)) = []"
  using kinds_deployPage[of L W S name fs] by (intro enqueued_noStream) auto

lemma createDeployment_success:
  "snd (createDeployment L W S n m) = Inr r \<Longrightarrow> success r"
  by (auto simp: createDeployment_def io_splits partialSuccess_def split: sum.splits if_splits)

lemma deployPage_try_success:
  "snd (deployPage_try L W S name fs) = Inr r \<Longrightarrow> success r"
  by (auto simp: deployPage_try_def Let_def io_splits split: sum.splits
      dest: createDeployment_success)

lemma deployPage_returns:
  "\<exists>r. snd (deployPage L W S name fs) = Inr r \<and> (\<not> success r \<longrightarrow> (\<exists>m. r = failure m))"
  by (auto simp: snd_deployPage split: sum.splits dest: deployPage_try_success)

lemma deployStream_css_throws:
  assumes "trimOrEmpty c = Inl e"
  shows "enqueued (fst (deployStream L W S h c j alias)) =
           statusEvents alias @
           [JObject [(''type'', JString ''error''),
              (''error'', JString (case e of ErrorObject m _ \<Rightarrow> m | OtherValue \<Rightarrow> ''Deployment failed''))]]"
  using assms
  by (simp add: deployStream_def statusEvents_def io_splits enqueue_def Let_def)

lemma deployStream_js_throws:
  assumes "trimOrEmpty c = Inr ct" "trimOrEmpty j = Inl e"
  shows "enqueued (fst (deployStream L W S h c j alias)) =
           statusEvents alias @
           [JObject [(''type'', JString ''error''),
              (''error'', JString (case e of ErrorObject m _ \<Rightarrow> m | OtherValue \<Rightarrow> ''Deployment failed''))]]"
  using assms
  by (simp add: deployStream_def statusEvents_def io_splits enqueue_def Let_def)

lemma deployStream_runs:
  assumes "trimOrEmpty c = Inr ct" "trimOrEmpty j = Inr jt"
    and "snd (deployPage L W S (Some alias) \<lparr>html = trim h, css = ct, js = jt\<rparr>) = Inr r"
  shows "enqueued (fst (deployStream L W S h c j alias)) =
           statusEvents alias @
           [JObject [(''type'', JString ''status''),
                     (''message'', JString ''Uploading files to CloudFlare...''),
                     (''progress'', JNumber 60), (''projectName'', JString alias)],
            (if success r
             then JObject [(''type'', JString ''complete''), (''success'', JBool True),
                    (''deployment'', deploymentObject r),
                    (''message'', JString ''Deployment completed successfully!''),
                    (''progress'', JNumber 100)]
             else JObject [(''type'', JString ''error''), (''error'', error r)])]"
    and "fst (deployStream L W S h c j alias) =
           map Enqueue (statusEvents alias) @
           [Enqueue (JObject [(''type'', JString ''status''),
                     (''message'', JString ''Uploading files to CloudFlare...''),
                     (''progress'', JNumber 60), (''projectName'', JString alias)])] @
           fst (deployPage L W S (Some alias) \<lparr>html = trim h, css = ct, js = jt\<rparr>) @
           [Enqueue (if success r
             then JObject [(''type'', JString ''complete''), (''success'', JBool True),
                    (''deployment'', deploymentObject r),
                    (''message'', JString ''Deployment completed successfully!''),
                    (''progress'', JNumber 100)]
             else JObject [(''type'', JString ''error''), (''error'', error r)]),
            EnqueueDone, Close]"
  using assms
  by (simp_all add: deployStream_def statusEvents_def io_splits enqueue_def Let_def
      enqueued_append enqueued_deployPage)

lemma POST_stream:
  assumes "snd (POST L W env rq) = Inr EventStream"
  shows "\<exists>b S. rq = Inr b \<and> createCloudFlarePagesService env = Some S \<and>
           \<not> invalidText (readProp b ''html'') \<and> \<not> invalidText (readProp b ''projectAlias'') \<and>
           fst (POST L W env rq) =
             fst (deployStream L W S (asString (readProp b ''html'')) (readProp b ''css'')
                    (readProp b ''js'') (asString (readProp b ''projectAlias'')))"
  using assms
  by (auto simp: POST_def io_splits Let_def getProp_def split: sum.splits if_splits option.splits)

lemma deployStream_cases:
  obtains (css) e where "trimOrEmpty c = Inl e"
      "enqueued (fst (deployStream L W S h c j alias)) =
           statusEvents alias @
           [JObject [(''type'', JString ''error''),
              (''error'', JString (case e of ErrorObject m _ \<Rightarrow> m | OtherValue \<Rightarrow> ''Deployment failed''))]]"
    | (js) e where
      "enqueued (fst (deployStream L W S h c j alias)) =
           statusEvents alias @
           [JObject [(''type'', JString ''error''),
              (''error'', JString (case e of ErrorObject m _ \<Rightarrow> m | OtherValue \<Rightarrow> ''Deployment failed''))]]"
    | (run) ct jt r where "trimOrEmpty c = Inr ct" "trimOrEmpty j = Inr jt"
      "snd (deployPage L W S (Some alias) \<lparr>html = trim h, css = ct, js = jt\<rparr>) = Inr r"
      "\<not> success r \<longrightarrow> (\<exists>m. r = failure m)"
      "enqueued (fst (deployStream L W S h c j alias)) =
           statusEvents alias @
           [JObject [(''type'', JString ''status''),
                     (''message'', JString ''Uploading files to CloudFlare...''),
                     (''progress'', JNumber 60), (''projectName'', JString alias)],
            (if success r
             then JObject [(''type'', JString ''complete''), (''success'', JBool True),
                    (''deployment'', deploymentObject r),
                    (''message'', JString ''Deployment completed successfully!''),
                    (''progress'', JNumber 100)]
             else JObject [(''type'', JString ''error''), (''error'', error r)])]"
proof (cases "trimOrEmpty c")
  case (Inl e)
  then show ?thesis using css deployStream_css_throws by blast
next
  case c: (Inr ct)
  show ?thesis
  proof (cases "trimOrEmpty j")
    case (Inl e)
    then show ?thesis using js deployStream_js_throws[OF c] by blast
  next
    case j: (Inr jt)
    from deployPage_returns[of L W S "Some alias" "\<lparr>html = trim h, css = ct, js = jt\<rparr>"]
    obtain r where r: "snd (deployPage L W S (Some alias) \<lparr>html = trim h, css = ct, js = jt\<rparr>) = Inr r"
      "\<not> success r \<longrightarrow> (\<exists>m. r = failure m)" by blast
    show ?thesis using run[OF c j r deployStream_runs(1)[OF c j r(1)]] .
  qed
qed

lemma event_simps:
  "isStatus (JObject ((''type'', JString t) # kvs)) = (t = ''status'')"
  "isComplete (JObject ((''type'', JString t) # kvs)) = (t = ''complete'')"
  "isError (JObject ((''type'', JString t) # kvs)) = (t = ''error'')"
  by (simp_all add: isStatus_def isComplete_def isError_def readProp_def)

lemma progress_simps:
  "progressOf (JObject [(''type'', t), (''message'', m), (''progress'', JNumber n)]) = n"
  "progressOf (JObject [(''type'', t), (''message'', m), (''progress'', JNumber n), x]) = n"
  by (simp_all add: progressOf_def readProp_def)

lemma deployStream_ordered: "orderedStream (enqueued (fst (deployStream L W S h c j alias)))"
proof (cases rule: deployStream_cases[of c L W S h j "alias"])
  case (css e)
  then show ?thesis
    by (simp add: orderedStream_def statusEvents_def event_simps progress_simps isTerminal_def)
next
  case (js e)
  then show ?thesis
    by (simp add: orderedStream_def statusEvents_def event_simps progress_simps isTerminal_def)
next
  case (run ct jt r)
  then show ?thesis
    by (simp add: orderedStream_def statusEvents_def event_simps progress_simps isTerminal_def)
qed

subsection \<open>The second service\<close>

lemma kinds_Un_subset: "kinds cs \<subseteq> K \<Longrightarrow> K \<subseteq> K' \<Longrightarrow> kinds cs \<subseteq> K'"
  by auto

lemma kinds_readHashes: "kinds (fst (readHashes L W d ns)) \<subseteq> {KFiles}"
proof (induction ns)
  case Nil
  then show ?case by simp
next
  case (Cons n ns)
  show ?case unfolding readHashes.simps
    by (intro kinds_andThen kinds_tryCatch) (simp_all add: Cons.IH)
qed

lemma kinds_readParts: "kinds (fst (readParts L W d ns)) \<subseteq> {KFiles}"
proof (induction ns)
  case Nil
  then show ?case by simp
next
  case (Cons n ns)
  show ?case unfolding readParts.simps
    by (intro kinds_andThen kinds_tryCatch) (simp_all add: Cons.IH)
qed

lemma kinds_createLocalBackupAndZip_server:
  "kinds (fst (createLocalBackupAndZip_server L W fs n)) \<subseteq> {KFiles}"
  unfolding createLocalBackupAndZip_server_def Let_def
  by (intro kinds_tryCatch kinds_andThen kinds_writeFiles) auto

lemma kinds_if:
  "kinds (fst a) \<subseteq> K \<Longrightarrow> kinds (fst b) \<subseteq> K \<Longrightarrow> kinds (fst (if c then a else b)) \<subseteq> K"
  by simp

lemma kinds_deployWithSDK:
  "kinds (fst (deployWithSDK L W S p n fs)) \<subseteq> {KFiles, KDeployments}"
  unfolding deployWithSDK_def
  by (intro kinds_tryCatch kinds_andThen kinds_if
      kinds_Un_subset[OF kinds_readHashes] kinds_Un_subset[OF kinds_readParts]) simp_all

lemma kinds_deployPage_server:
  "kinds (fst (deployPage_server L W S n fs)) \<subseteq> {KProjects, KFiles, KDeployments}"
  unfolding deployPage_server_def Let_def
  by (intro kinds_tryCatch kinds_andThen
      kinds_Un_subset[OF kinds_createLocalBackupAndZip_server]
      kinds_Un_subset[OF kinds_deployWithSDK]) auto

lemma enqueued_deployPage_server: "enqueued (fst (deployPage_server L W S n fs)) = []"
  using kinds_deployPage_server[of L W S n fs] by (intro enqueued_noStream) auto

lemma deployWithSDK_returns:
  "\<exists>r. snd (deployWithSDK L W S p n fs) = Inr r \<and> (\<not> success r \<longrightarrow> (\<exists>m. r = failure m))"
  by (auto simp: deployWithSDK_def io_splits failure_def split: sum.splits)

lemma deployPage_server_result:
  "\<exists>r. snd (deployPage_server L W S n fs) = Inr r \<and>
     ((\<exists>m. r = failure m) \<or>
      (\<exists>p. snd (deployWithSDK L W S p (orElse n (JString ''webmint-app''))
                 (prepareDeploymentFiles fs)) = Inr r))"
  by (auto simp: deployPage_server_def Let_def io_splits split: sum.splits)

lemma deployPage_server_returns:
  "\<exists>r. snd (deployPage_server L W S n fs) = Inr r \<and> (\<not> success r \<longrightarrow> (\<exists>m. r = failure m))"
proof -
  from deployPage_server_result[of L W S n fs] obtain r where
    r: "snd (deployPage_server L W S n fs) = Inr r" and
    d: "(\<exists>m. r = failure m) \<or>
        (\<exists>p. snd (deployWithSDK L W S p (orElse n (JString ''webmint-app''))
                   (prepareDeploymentFiles fs)) = Inr r)" by blast
  from d have "\<not> success r \<longrightarrow> (\<exists>m. r = failure m)"
  proof
    assume "\<exists>m. r = failure m"
    then show ?thesis by blast
  next
    assume "\<exists>p. snd (deployWithSDK L W S p (orElse n (JString ''webmint-app''))
                   (prepareDeploymentFiles fs)) = Inr r"
    then obtain p where "snd (deployWithSDK L W S p (orElse n (JString ''webmint-app''))
                   (prepareDeploymentFiles fs)) = Inr r" ..
    with deployWithSDK_returns[of L W S p "orElse n (JString ''webmint-app'')" "prepareDeploymentFiles fs"]
    show ?thesis by auto
  qed
  with r show ?thesis by blast
qed

subsection \<open>The events of the second streaming route\<close>

lemma deployPage_server_not_Inl: "snd (deployPage_server L W S n fs) \<noteq> Inl e"
  using deployPage_server_returns[of L W S n fs] by auto

lemma deployPage_not_Inl: "snd (deployPage L W S n fs) \<noteq> Inl e"
  using deployPage_returns[of L W S n fs] by auto

lemma routeCheck_events:
  "snd (routeCheck L W n) = Inr () \<and>
   (enqueued (fst (routeCheck L W n)) = [] \<or>
    (\<exists>m. enqueued (fst (routeCheck L W n)) =
       [JObject [(''type'', JString ''status''), (''message'', JString m), (''progress'', JNumber 50)]]))"
  by (cases "projects_get_route W")
    (simp_all add: routeCheck_def io_splits enqueue_def settle_def)

lemma actionStream_css_throws:
  assumes "trimOrEmpty c = Inl e"
  shows "enqueued (fst (actionStream L W S h c j n)) =
           [JObject [(''type'', JString ''status''), (''message'', JString ''Preparing deployment...''),
                     (''progress'', JNumber 10), (''projectName'', n)],
            JObject [(''type'', JString ''error''), (''success'', JBool False),
              (''error'', JString (messageOr e ''Deployment streaming failed''))]]"
  using assms
  by (simp add: actionStream_def io_splits enqueue_def Let_def)

lemma actionStream_js_throws:
  assumes "trimOrEmpty c = Inr ct" "trimOrEmpty j = Inl e"
  shows "enqueued (fst (actionStream L W S h c j n)) =
           [JObject [(''type'', JString ''status''), (''message'', JString ''Preparing deployment...''),
                     (''progress'', JNumber 10), (''projectName'', n)],
            JObject [(''type'', JString ''error''), (''success'', JBool False),
              (''error'', JString (messageOr e ''Deployment streaming failed''))]]"
  using assms
  by (simp add: actionStream_def io_splits enqueue_def Let_def)

lemma actionStream_runs:
  assumes "trimOrEmpty c = Inr ct" "trimOrEmpty j = Inr jt"
    and "snd (deployPage_server L W S n \<lparr>html = trim h, css = ct, js = jt\<rparr>) = Inr r"
  shows "enqueued (fst (actionStream L W S h c j n)) =
           [JObject [(''type'', JString ''status''), (''message'', JString ''Preparing deployment...''),
                     (''progress'', JNumber 10), (''projectName'', n)],
            JObject [(''type'', JString ''status''),
                     (''message'', JString ''Files prepared, checking CloudFlare project...''),
                     (''progress'', JNumber 30)]] @
           enqueued (fst (routeCheck L W n)) @
           [JObject [(''type'', JString ''status''),
                     (''message'', JString ''Uploading files to CloudFlare Pages...''),
                     (''progress'', JNumber 70)]] @
           (if success r
            then [JObject [(''type'', JString ''status''),
                           (''message'', JString ''Deployment uploaded, processing...''),
                           (''progress'', JNumber 85)],
                  JObject [(''type'', JString ''complete''), (''success'', JBool True),
                           (''deployment'', deploymentObject r), (''progress'', JNumber 100),
                           (''message'', JString ''Deployment completed successfully!'')]]
            else [JObject [(''type'', JString ''error''), (''success'', JBool False),
                           (''error'', error r), (''progress'', JNumber 0)]])"
proof -
  have rc: "snd (routeCheck L W n) = Inr ()" using routeCheck_events by blast
  show ?thesis
    using assms rc
    by (simp add: actionStream_def snd_andThen fst_andThen
        fst_tryCatch snd_tryCatch enqueue_def Let_def enqueued_append
        enqueued_deployPage_server)
qed

lemma actionStream_ordered: "orderedStream (enqueued (fst (actionStream L W S h c j n)))"
proof (cases "trimOrEmpty c")
  case (Inl e)
  show ?thesis
    by (simp add: actionStream_css_throws[OF Inl] orderedStream_def event_simps progress_simps
        isTerminal_def)
next
  case c: (Inr ct)
  show ?thesis
  proof (cases "trimOrEmpty j")
    case (Inl e)
    show ?thesis
      by (simp add: actionStream_js_throws[OF c Inl] orderedStream_def event_simps
          progress_simps isTerminal_def)
  next
    case j: (Inr jt)
    from deployPage_server_returns[of L W S n "\<lparr>html = trim h, css = ct, js = jt\<rparr>"]
    obtain r where r: "snd (deployPage_server L W S n \<lparr>html = trim h, css = ct, js = jt\<rparr>) = Inr r"
      by blast
    from routeCheck_events[of L W n]
    consider "enqueued (fst (routeCheck L W n)) = []"
      | m where "enqueued (fst (routeCheck L W n)) =
          [JObject [(''type'', JString ''status''), (''message'', JString m), (''progress'', JNumber 50)]]"
      by blast
    then show ?thesis
    proof cases
      case 1
      show ?thesis
        by (cases "success r")
          (simp_all add: actionStream_runs[OF c j r] 1 orderedStream_def event_simps
            progress_simps isTerminal_def)
    next
      case 2
      show ?thesis
        by (cases "success r")
          (simp_all add: actionStream_runs[OF c j r] 2 orderedStream_def event_simps
            progress_simps isTerminal_def)
    qed
  qed
qed

lemma action_stream:
  assumes "snd (action L W env rq) = Inr EventStream"
  shows "\<exists>b S n. fst (action L W env rq) =
             fst (actionStream L W S (asString (readProp b ''html'')) (readProp b ''css'')
                    (readProp b ''js'') n)"
  using assms
  by (auto simp: action_def io_splits Let_def getProp_def split: sum.splits if_splits option.splits)

subsection \<open>URL normalisation and rejected requests\<close>





lemma rejected_uploadPhase:
  assumes "(\<exists>t. fetch_upload_token W = Inr t \<and> \<not> ok t) \<or> (\<exists>u. fetch_upload W = Inr u \<and> \<not> ok u)"
  shows "\<exists>e. snd (uploadPhase L W S n fs) = Inl e"
proof -
  have tok: "\<exists>e. snd (getUploadToken L W S n) = Inl e" if "fetch_upload_token W = Inr t" "\<not> ok t" for t
    using that by (simp add: getUploadToken_def io_splits split: sum.splits)
  have up: "\<exists>e. snd (uploadFilesCall L W k us) = Inl e" if "fetch_upload W = Inr u" "\<not> ok u" for u k us
    using that by (simp add: uploadFilesCall_def io_splits split: sum.splits)
  from assms show ?thesis
  proof
    assume "\<exists>t. fetch_upload_token W = Inr t \<and> \<not> ok t"
    then obtain e where "snd (getUploadToken L W S n) = Inl e" using tok by blast
    then show ?thesis
      by (simp add: uploadPhase_def Let_def snd_andThen split: sum.splits)
  next
    assume "\<exists>u. fetch_upload W = Inr u \<and> \<not> ok u"
    then have "\<And>k us. \<exists>e. snd (uploadFilesCall L W k us) = Inl e" using up by blast
    then have "\<And>k us r. snd (uploadFilesCall L W k us) \<noteq> Inr r" by (metis sum.distinct(1))
    then show ?thesis
      by (simp add: uploadPhase_def Let_def snd_andThen split: sum.splits)
  qed
qed

lemma deployPage_uploadPhase_fails:
  assumes "snd (uploadPhase L W S (finalName name) fs) = Inl e"
  shows "snd (deployPage L W S name fs) =
           Inr (failure (case e of ErrorObject m _ \<Rightarrow> m | OtherValue \<Rightarrow> ''Failed to deploy page''))"
    and "fst (deployPage L W S name fs) = fst (uploadPhase L W S (finalName name) fs)"
  using assms
  by (simp_all add: snd_deployPage fst_deployPage deployPage_try_def Let_def io_splits)

lemma deployStream_throw_calls:
  assumes "trimOrEmpty c = Inl e \<or> (\<exists>ct. trimOrEmpty c = Inr ct \<and> trimOrEmpty j = Inl e)"
  shows "kinds (fst (deployStream L W S h c j alias)) \<subseteq> {KStream}"
  using assms
  by (auto simp: deployStream_def io_splits enqueue_def Let_def)

section \<open>The claims about the service and its routes\<close>

text \<open>
  C9. The claim is that every attempt handled by the streaming deploy endpoint emits
  status events with progress values that never go down and exactly one terminal event,
  after every status event. A request that does not pass the validation, or for which
  no credentials are configured, is answered with a JSON response before a stream is
  opened: it emits no event, so no terminal event. Here are a request with blank HTML
  to the first route, and a request to the second route with no credentials in the
  environment.
\<close>

theorem rejected_request_emits_no_event:
  "snd (POST demoLib demoWorld demoEnv
          (Inr (JObject [(''html'', JString ''  ''), (''projectAlias'', JString ''demo'')]))) =
     Inr (JsonResponse (JObject [(''error'', JString ''Missing or invalid HTML content'')]) 400) \<and>
   enqueued (fst (POST demoLib demoWorld demoEnv
          (Inr (JObject [(''html'', JString ''  ''), (''projectAlias'', JString ''demo'')])))) = [] \<and>
   \<not> orderedStream (enqueued (fst (POST demoLib demoWorld demoEnv
          (Inr (JObject [(''html'', JString ''  ''), (''projectAlias'', JString ''demo'')]))))) \<and>
   snd (action demoLib demoWorld (\<lambda>v. None) (Inr demoRequest)) =
     Inr (JsonResponse (JObject [(''error'', JString
       ''CloudFlare credentials not configured. Please set CLOUDFLARE_API_TOKEN and CLOUDFLARE_ACCOUNT_ID'')])
       500) \<and>
   enqueued (fst (action demoLib demoWorld (\<lambda>v. None) (Inr demoRequest))) = [] \<and>
   \<not> orderedStream (enqueued (fst (action demoLib demoWorld (\<lambda>v. None) (Inr demoRequest))))"
proof -
  have p: "snd (POST demoLib demoWorld demoEnv
          (Inr (JObject [(''html'', JString ''  ''), (''projectAlias'', JString ''demo'')]))) =
     Inr (JsonResponse (JObject [(''error'', JString ''Missing or invalid HTML content'')]) 400)"
    by code_simp
  have pe: "enqueued (fst (POST demoLib demoWorld demoEnv
          (Inr (JObject [(''html'', JString ''  ''), (''projectAlias'', JString ''demo'')])))) = []"
    by code_simp
  have a: "snd (action demoLib demoWorld (\<lambda>v. None) (Inr demoRequest)) =
     Inr (JsonResponse (JObject [(''error'', JString
       ''CloudFlare credentials not configured. Please set CLOUDFLARE_API_TOKEN and CLOUDFLARE_ACCOUNT_ID'')])
       500)"
    by code_simp
  have ae: "enqueued (fst (action demoLib demoWorld (\<lambda>v. None) (Inr demoRequest))) = []"
    by code_simp
  have n: "\<not> orderedStream []" by (simp add: orderedStream_def)
  from p pe a ae n show ?thesis by simp
qed

text \<open>
  C9, as amended. Whenever one of the two streaming routes answers with an event
  stream, the progress values of the status events it emits never go down in emission
  order, exactly one event is terminal (complete or error), and it comes after every
  status event: it is the last event of the stream.
\<close>

theorem stream_events_ordered:
  "(snd (POST L W env rq) = Inr EventStream \<longrightarrow>
      orderedStream (enqueued (fst (POST L W env rq)))) \<and>
   (snd (action L W env rq) = Inr EventStream \<longrightarrow>
      orderedStream (enqueued (fst (action L W env rq))))"
proof (intro conjI impI)
  assume "snd (POST L W env rq) = Inr EventStream"
  from POST_stream[OF this] show "orderedStream (enqueued (fst (POST L W env rq)))"
    using deployStream_ordered by auto
next
  assume "snd (action L W env rq) = Inr EventStream"
  from action_stream[OF this] show "orderedStream (enqueued (fst (action L W env rq)))"
    using actionStream_ordered by auto
qed

theorem stream_events_ordered_witness:
  "snd (POST demoLib demoWorld demoEnv (Inr demoRequest)) = Inr EventStream \<and>
   orderedStream (enqueued (fst (POST demoLib demoWorld demoEnv (Inr demoRequest)))) \<and>
   snd (action demoLib demoWorld demoEnv (Inr demoRequest)) = Inr EventStream \<and>
   orderedStream (enqueued (fst (action demoLib demoWorld demoEnv (Inr demoRequest))))"
proof -
  have p: "snd (POST demoLib demoWorld demoEnv (Inr demoRequest)) = Inr EventStream"
    by code_simp
  have a: "snd (action demoLib demoWorld demoEnv (Inr demoRequest)) = Inr EventStream"
    by code_simp
  from p a stream_events_ordered[of demoLib demoWorld demoEnv "Inr demoRequest"]
  show ?thesis by simp
qed

text \<open>
  C10. For every input and every outcome of the calls it makes, exceptions included,
  \<open>deployPage\<close> of either service does not throw: it returns an object with a boolean
  \<open>success\<close>, and a result that is no success is \<open>{success: false, error: message}\<close>.
\<close>

theorem deployPage_never_throws:
  "(\<exists>r. snd (deployPage L W S name fs) = Inr r \<and> (\<not> success r \<longrightarrow> (\<exists>m. r = failure m))) \<and>
   (\<exists>r. snd (deployPage_server L W S n fs) = Inr r \<and> (\<not> success r \<longrightarrow> (\<exists>m. r = failure m)))"
  using deployPage_returns deployPage_server_returns by blast

theorem deployPage_never_throws_witness:
  "\<exists>r. snd (deployPage demoLib readOnlyWorld demoService (Some ''demo'') demoFiles) = Inr r \<and>
       \<not> success r \<and> (\<exists>m. r = failure m)"
proof -
  have e: "snd (deployPage demoLib readOnlyWorld demoService (Some ''demo'') demoFiles) =
             Inr (failure ''EROFS: read-only file system, mkdir'')"
    by code_simp
  have f: "\<not> success (failure ''EROFS: read-only file system, mkdir'')"
    by (simp add: failure_def)
  from deployPage_never_throws[of demoLib readOnlyWorld demoService "Some ''demo''" demoFiles]
  obtain r where "snd (deployPage demoLib readOnlyWorld demoService (Some ''demo'') demoFiles) = Inr r"
    "\<not> success r \<longrightarrow> (\<exists>m. r = failure m)" by blast
  with e f show ?thesis by auto
qed

text \<open>
  C8. When the upload-token request or the bulk upload request comes back with a
  non-success status, \<open>deployPage\<close> returns a failure and makes no deployment-creation
  call, and the streaming route ends with an error event, with no complete event and
  no deployment-creation call.
\<close>

theorem token_or_upload_rejected:
  assumes "(\<exists>t. fetch_upload_token W = Inr t \<and> \<not> ok t) \<or>
           (\<exists>u. fetch_upload W = Inr u \<and> \<not> ok u)"
  shows "(\<exists>m. snd (deployPage L W S name fs) = Inr (failure m)) \<and>
         KDeployments \<notin> kinds (fst (deployPage L W S name fs)) \<and>
         (snd (POST L W env rq) = Inr EventStream \<longrightarrow>
            isError (last (enqueued (fst (POST L W env rq)))) \<and>
            \<not> list_ex isComplete (enqueued (fst (POST L W env rq))) \<and>
            KDeployments \<notin> kinds (fst (POST L W env rq)))"
proof -
  have fails: "\<exists>m. snd (deployPage L W S' n' fs') = Inr (failure m)"
    and quiet: "KDeployments \<notin> kinds (fst (deployPage L W S' n' fs'))" for S' n' fs'
  proof -
    from rejected_uploadPhase[OF assms, of L S' "finalName n'" fs']
    obtain e where e: "snd (uploadPhase L W S' (finalName n') fs') = Inl e" ..
    from deployPage_uploadPhase_fails(1)[OF e]
    show "\<exists>m. snd (deployPage L W S' n' fs') = Inr (failure m)" by blast
    from deployPage_uploadPhase_fails(2)[OF e] kinds_uploadPhase[of L W S' "finalName n'" fs']
    show "KDeployments \<notin> kinds (fst (deployPage L W S' n' fs'))" by auto
  qed
  have stream: "isError (last (enqueued (fst (deployStream L W S' h c j a)))) \<and>
                \<not> list_ex isComplete (enqueued (fst (deployStream L W S' h c j a))) \<and>
                KDeployments \<notin> kinds (fst (deployStream L W S' h c j a))" for S' h c j a
  proof (cases rule: deployStream_cases[of c L W S' h j a])
    case (css e)
    from deployStream_throw_calls[of c e j L W S' h a] css(1)
    have "kinds (fst (deployStream L W S' h c j a)) \<subseteq> {KStream}" by blast
    then show ?thesis
      by (auto simp: css(2) statusEvents_def event_simps)
  next
    case (js e)
    have "KDeployments \<notin> kinds (fst (deployStream L W S' h c j a))"
    proof (cases "trimOrEmpty c")
      case (Inl e')
      from deployStream_throw_calls[of c e' j L W S' h a] Inl show ?thesis by auto
    next
      case c: (Inr ct)
      show ?thesis
      proof (cases "trimOrEmpty j")
        case (Inl e')
        from deployStream_throw_calls[of c e' j L W S' h a] c Inl show ?thesis by auto
      next
        case j: (Inr jt)
        from deployPage_returns[of L W S' "Some a" "\<lparr>html = trim h, css = ct, js = jt\<rparr>"]
        obtain r where r: "snd (deployPage L W S' (Some a) \<lparr>html = trim h, css = ct, js = jt\<rparr>) = Inr r"
          by blast
        show ?thesis using quiet[of S' "Some a" "\<lparr>html = trim h, css = ct, js = jt\<rparr>"]
          by (simp add: deployStream_runs(2)[OF c j r] statusEvents_def)
      qed
    qed
    then show ?thesis by (simp add: js statusEvents_def event_simps)
  next
    case (run ct jt r)
    from fails[of S' "Some a" "\<lparr>html = trim h, css = ct, js = jt\<rparr>"] run(3)
    obtain m where m: "r = failure m" by auto
    have "KDeployments \<notin> kinds (fst (deployStream L W S' h c j a))"
      using quiet[of S' "Some a" "\<lparr>html = trim h, css = ct, js = jt\<rparr>"]
      by (simp add: deployStream_runs(2)[OF run(1,2,3)] statusEvents_def)
    then show ?thesis
      by (simp add: run(5) m failure_def statusEvents_def event_simps)
  qed
  show ?thesis
  proof (intro conjI impI)
    show "\<exists>m. snd (deployPage L W S name fs) = Inr (failure m)" by (rule fails)
    show "KDeployments \<notin> kinds (fst (deployPage L W S name fs))" by (rule quiet)
  next
    assume s: "snd (POST L W env rq) = Inr EventStream"
    from POST_stream[OF s] obtain b S' where
      eq: "fst (POST L W env rq) =
             fst (deployStream L W S' (asString (readProp b ''html'')) (readProp b ''css'')
                    (readProp b ''js'') (asString (readProp b ''projectAlias'')))" by blast
    show "isError (last (enqueued (fst (POST L W env rq))))"
      "\<not> list_ex isComplete (enqueued (fst (POST L W env rq)))"
      "KDeployments \<notin> kinds (fst (POST L W env rq))"
      unfolding eq using stream by blast+
  qed
qed

theorem token_or_upload_rejected_witness:
  "(\<exists>t. fetch_upload_token refusedWorld = Inr t \<and> \<not> ok t) \<and>
   snd (POST demoLib refusedWorld demoEnv (Inr demoRequest)) = Inr EventStream \<and>
   (\<exists>m. snd (deployPage demoLib refusedWorld demoService (Some ''demo'') demoFiles) = Inr (failure m)) \<and>
   KDeployments \<notin> kinds (fst (deployPage demoLib refusedWorld demoService (Some ''demo'') demoFiles)) \<and>
   isError (last (enqueued (fst (POST demoLib refusedWorld demoEnv (Inr demoRequest))))) \<and>
   \<not> list_ex isComplete (enqueued (fst (POST demoLib refusedWorld demoEnv (Inr demoRequest)))) \<and>
   KDeployments \<notin> kinds (fst (POST demoLib refusedWorld demoEnv (Inr demoRequest)))"
proof -
  have t: "fetch_upload_token refusedWorld = Inr rejectedResponse \<and> \<not> ok rejectedResponse"
    by (simp add: refusedWorld_def rejectedResponse_def)
  then have h: "(\<exists>t. fetch_upload_token refusedWorld = Inr t \<and> \<not> ok t) \<or>
                (\<exists>u. fetch_upload refusedWorld = Inr u \<and> \<not> ok u)" by blast
  have s: "snd (POST demoLib refusedWorld demoEnv (Inr demoRequest)) = Inr EventStream"
    by code_simp
  from t s token_or_upload_rejected[OF h, of demoLib demoService "Some ''demo''" demoFiles demoEnv
      "Inr demoRequest"]
  show ?thesis by blast
qed

lemma uploadPhase_backup_fails:
  assumes "snd (ensureProject W n) = Inr ()"
    and "snd (createLocalBackupAndZip L W (prepareDeploymentFiles fs) n) = Inl e"
  shows "snd (uploadPhase L W S n fs) = Inl e"
    and "kinds (fst (uploadPhase L W S n fs)) \<subseteq> {KProjects, KFiles}"
proof -
  show "snd (uploadPhase L W S n fs) = Inl e"
    using assms by (simp add: uploadPhase_def Let_def snd_andThen)
  have "fst (uploadPhase L W S n fs) =
          fst (ensureProject W n) @ fst (createLocalBackupAndZip L W (prepareDeploymentFiles fs) n)"
    using assms by (simp add: uploadPhase_def Let_def fst_andThen)
  then show "kinds (fst (uploadPhase L W S n fs)) \<subseteq> {KProjects, KFiles}"
    using kinds_ensureProject[of W n] kinds_createLocalBackupAndZip[of L W "prepareDeploymentFiles fs" n]
    by auto
qed





text \<open>
  C2. The claim is that a failure of the local backup writes or of the archive creation
  never fails the attempt. In the source \<open>createLocalBackupAndZip\<close> logs the error and
  throws it again, and \<open>deployPage\<close> awaits it inside its \<open>try\<close> block: on a read-only disk
  the attempt ends after the \<open>mkdir\<close> call with a failure, and the route emits an error
  event.
\<close>

theorem backup_failure_fails_attempt:
  "snd (deployPage demoLib readOnlyWorld demoService (Some ''demo'') demoFiles) =
     Inr (failure ''EROFS: read-only file system, mkdir'') \<and>
   fst (deployPage demoLib readOnlyWorld demoService (Some ''demo'') demoFiles) =
     [ProjectsGet ''demo'', Mkdir ''/srv/backups/demo-2024-01-01T00-00-00-000Z''] \<and>
   last (enqueued (fst (POST demoLib readOnlyWorld demoEnv (Inr demoRequest)))) =
     JObject [(''type'', JString ''error''),
              (''error'', JString ''EROFS: read-only file system, mkdir'')]"
proof -
  have 1: "snd (deployPage demoLib readOnlyWorld demoService (Some ''demo'') demoFiles) =
     Inr (failure ''EROFS: read-only file system, mkdir'')"
    by code_simp
  have 2: "fst (deployPage demoLib readOnlyWorld demoService (Some ''demo'') demoFiles) =
     [ProjectsGet ''demo'', Mkdir ''/srv/backups/demo-2024-01-01T00-00-00-000Z'']"
    by code_simp
  have 3: "last (enqueued (fst (POST demoLib readOnlyWorld demoEnv (Inr demoRequest)))) =
     JObject [(''type'', JString ''error''),
              (''error'', JString ''EROFS: read-only file system, mkdir'')]"
    by code_simp
  from 1 2 3 show ?thesis by blast
qed

text \<open>
  C2, as amended: when the project lookup has succeeded and \<open>createLocalBackupAndZip\<close>
  throws (a directory or file write, or the archive creation, failed), \<open>deployPage\<close>
  returns \<open>{success: false, error: message}\<close> having made project and file-system calls
  only, so no token, upload or deployment-creation request; the route that made the
  call ends with an error event carrying that message.
\<close>

theorem backup_failure_is_fatal:
  assumes "snd (ensureProject W (finalName name)) = Inr ()"
    and "snd (createLocalBackupAndZip L W (prepareDeploymentFiles fs) (finalName name)) = Inl e"
  shows "snd (deployPage L W S name fs) =
           Inr (failure (case e of ErrorObject m _ \<Rightarrow> m | OtherValue \<Rightarrow> ''Failed to deploy page'')) \<and>
         kinds (fst (deployPage L W S name fs)) \<subseteq> {KProjects, KFiles} \<and>
         (\<forall>h c j a ct jt. name = Some a \<and> fs = \<lparr>html = trim h, css = ct, js = jt\<rparr> \<and>
            trimOrEmpty c = Inr ct \<and> trimOrEmpty j = Inr jt \<longrightarrow>
            last (enqueued (fst (deployStream L W S h c j a))) =
              JObject [(''type'', JString ''error''),
                (''error'', JString (case e of ErrorObject m _ \<Rightarrow> m
                                     | OtherValue \<Rightarrow> ''Failed to deploy page''))])"
proof (intro conjI allI impI)
  note u = uploadPhase_backup_fails[OF assms, of S]
  show r: "snd (deployPage L W S name fs) =
           Inr (failure (case e of ErrorObject m _ \<Rightarrow> m | OtherValue \<Rightarrow> ''Failed to deploy page''))"
    by (rule deployPage_uploadPhase_fails(1)[OF u(1)])
  show "kinds (fst (deployPage L W S name fs)) \<subseteq> {KProjects, KFiles}"
    using u(2) by (simp add: deployPage_uploadPhase_fails(2)[OF u(1)])
  fix h c j a ct jt
  assume a: "name = Some a \<and> fs = \<lparr>html = trim h, css = ct, js = jt\<rparr> \<and>
            trimOrEmpty c = Inr ct \<and> trimOrEmpty j = Inr jt"
  then have c: "trimOrEmpty c = Inr ct" and j: "trimOrEmpty j = Inr jt" by simp_all
  from a r have r': "snd (deployPage L W S (Some a) \<lparr>html = trim h, css = ct, js = jt\<rparr>) =
           Inr (failure (case e of ErrorObject m _ \<Rightarrow> m | OtherValue \<Rightarrow> ''Failed to deploy page''))"
    by simp
  show "last (enqueued (fst (deployStream L W S h c j a))) =
              JObject [(''type'', JString ''error''),
                (''error'', JString (case e of ErrorObject m _ \<Rightarrow> m
                                     | OtherValue \<Rightarrow> ''Failed to deploy page''))]"
    by (simp add: deployStream_runs(1)[OF c j r'] failure_def)
qed

theorem backup_failure_is_fatal_witness:
  "snd (ensureProject readOnlyWorld (finalName (Some ''demo''))) = Inr () \<and>
   snd (createLocalBackupAndZip demoLib readOnlyWorld (prepareDeploymentFiles demoFiles)
          (finalName (Some ''demo''))) =
     Inl (ErrorObject ''EROFS: read-only file system, mkdir'' None) \<and>
   snd (deployPage demoLib readOnlyWorld demoService (Some ''demo'') demoFiles) =
     Inr (failure ''EROFS: read-only file system, mkdir'') \<and>
   kinds (fst (deployPage demoLib readOnlyWorld demoService (Some ''demo'') demoFiles))
     \<subseteq> {KProjects, KFiles}"
proof -
  have p: "snd (ensureProject readOnlyWorld (finalName (Some ''demo''))) = Inr ()"
    by code_simp
  have b: "snd (createLocalBackupAndZip demoLib readOnlyWorld (prepareDeploymentFiles demoFiles)
          (finalName (Some ''demo''))) =
     Inl (ErrorObject ''EROFS: read-only file system, mkdir'' None)"
    by code_simp
  from backup_failure_is_fatal[OF p b, of demoService] p b
  show ?thesis by simp
qed




subsection \<open>The manifest and the uploaded files\<close>

lemma zipName_neq:
  "n @ ''-deployment.zip'' \<noteq> ''index.html''"
  "n @ ''-deployment.zip'' \<noteq> ''styles.css''"
  "n @ ''-deployment.zip'' \<noteq> ''script.js''"
  "n @ ''-deployment.zip'' \<noteq> ''manifest.json''"
proof -
  have l: "last (n @ ''-deployment.zip'') = CHR ''p''" by simp
  have a: "last ''index.html'' = CHR ''l''" "last ''styles.css'' = CHR ''s''"
    "last ''script.js'' = CHR ''s''" "last ''manifest.json'' = CHR ''n''" by simp_all
  show "n @ ''-deployment.zip'' \<noteq> ''index.html''"
  proof
    assume "n @ ''-deployment.zip'' = ''index.html''"
    then have "last (n @ ''-deployment.zip'') = last ''index.html''" by (rule arg_cong)
    with l a show False by simp
  qed
  show "n @ ''-deployment.zip'' \<noteq> ''styles.css''"
  proof
    assume "n @ ''-deployment.zip'' = ''styles.css''"
    then have "last (n @ ''-deployment.zip'') = last ''styles.css''" by (rule arg_cong)
    with l a show False by simp
  qed
  show "n @ ''-deployment.zip'' \<noteq> ''script.js''"
  proof
    assume "n @ ''-deployment.zip'' = ''script.js''"
    then have "last (n @ ''-deployment.zip'') = last ''script.js''" by (rule arg_cong)
    with l a show False by simp
  qed
  show "n @ ''-deployment.zip'' \<noteq> ''manifest.json''"
  proof
    assume "n @ ''-deployment.zip'' = ''manifest.json''"
    then have "last (n @ ''-deployment.zip'') = last ''manifest.json''" by (rule arg_cong)
    with l a show False by simp
  qed
qed

lemma deployPage_try_calls:
  "fst (deployPage_try L W S name fs) =
     (case snd (uploadPhase L W S (finalName name) fs) of
        Inl e \<Rightarrow> fst (uploadPhase L W S (finalName name) fs)
      | Inr dfs \<Rightarrow>
          fst (uploadPhase L W S (finalName name) fs) @
          (case snd (buildManifestData L W (finalName name) dfs) of
             Inl e \<Rightarrow> []
           | Inr m \<Rightarrow> [FetchDeployments (deploymentsUrl (accountId S) (finalName name)) m ''main'']))"
  by (simp add: deployPage_try_def Let_def fst_andThen fst_buildManifestData
      fst_createDeployment split: sum.splits)

lemma deployPage_create_call:
  assumes "FetchDeployments u m b \<in> set (fst (deployPage L W S name fs))"
  shows "\<exists>dfs. snd (uploadPhase L W S (finalName name) fs) = Inr dfs \<and>
           snd (buildManifestData L W (finalName name) dfs) = Inr m \<and>
           set (fst (uploadPhase L W S (finalName name) fs)) \<subseteq> set (fst (deployPage L W S name fs))"
proof -
  have no: "FetchDeployments u m b \<notin> set (fst (uploadPhase L W S (finalName name) fs))"
  proof
    assume "FetchDeployments u m b \<in> set (fst (uploadPhase L W S (finalName name) fs))"
    then have "kindOf (FetchDeployments u m b) \<in> kinds (fst (uploadPhase L W S (finalName name) fs))"
      unfolding kinds_def by (rule imageI)
    with kinds_uploadPhase[of L W S "finalName name" fs] show False by auto
  qed
  show ?thesis
  proof (cases "snd (uploadPhase L W S (finalName name) fs)")
    case (Inl e)
    with assms no show ?thesis by (simp add: fst_deployPage deployPage_try_calls)
  next
    case u: (Inr dfs)
    show ?thesis
    proof (cases "snd (buildManifestData L W (finalName name) dfs)")
      case (Inl e)
      with assms no u show ?thesis by (simp add: fst_deployPage deployPage_try_calls)
    next
      case (Inr m')
      with assms no u have "m = m'" by (simp add: fst_deployPage deployPage_try_calls)
      with u Inr show ?thesis by (auto simp: fst_deployPage deployPage_try_calls)
    qed
  qed
qed

lemma assign_new: "k \<notin> fst ` set m \<Longrightarrow> assign k v m = m @ [(k, v)]"
  by (simp add: assign_def)

lemma assign_mem: "(k, v) \<in> set (assign k v m)"
proof (cases "k \<in> fst ` set m")
  case True
  then obtain v' where "(k, v') \<in> set m" by auto
  then have "(\<lambda>(k', v'). if k' = k then (k', v) else (k', v')) (k, v') \<in>
               set (map (\<lambda>(k', v'). if k' = k then (k', v) else (k', v')) m)"
    by (intro imageI[of _ "set m", folded set_map])
  with True show ?thesis by (simp add: assign_def)
next
  case False
  then show ?thesis by (simp add: assign_def)
qed

lemma prepared_cases:
  obtains (plain) "prepareDeploymentFiles f =
       [(''index.html'', \<lparr>content = createFullHtmlPage (html f) (css f) (js f), type = ''text/html''\<rparr>)]"
  | (css) "trim (css f) \<noteq> []" "prepareDeploymentFiles f =
       [(''index.html'', \<lparr>content = createFullHtmlPage (html f) (css f) (js f), type = ''text/html''\<rparr>),
        (''styles.css'', \<lparr>content = trim (css f), type = ''text/css''\<rparr>)]"
  | (js) "trim (js f) \<noteq> []" "prepareDeploymentFiles f =
       [(''index.html'', \<lparr>content = createFullHtmlPage (html f) (css f) (js f), type = ''text/html''\<rparr>),
        (''script.js'', \<lparr>content = trim (js f), type = ''application/javascript''\<rparr>)]"
  | (both) "trim (css f) \<noteq> []" "trim (js f) \<noteq> []" "prepareDeploymentFiles f =
       [(''index.html'', \<lparr>content = createFullHtmlPage (html f) (css f) (js f), type = ''text/html''\<rparr>),
        (''styles.css'', \<lparr>content = trim (css f), type = ''text/css''\<rparr>),
        (''script.js'', \<lparr>content = trim (js f), type = ''application/javascript''\<rparr>)]"
proof -
  have e: "prepareDeploymentFiles f =
     [(''index.html'', \<lparr>content = createFullHtmlPage (html f) (css f) (js f), type = ''text/html''\<rparr>)] @
     (if trim (css f) \<noteq> []
      then [(''styles.css'', \<lparr>content = trim (css f), type = ''text/css''\<rparr>)] else []) @
     (if trim (js f) \<noteq> []
      then [(''script.js'', \<lparr>content = trim (js f), type = ''application/javascript''\<rparr>)]
      else [])"
    by (auto simp: prepareDeploymentFiles_def trim_Nil)
  show ?thesis
  proof (cases "trim (css f) = []")
    case c: True
    show ?thesis
    proof (cases "trim (js f) = []")
      case True
      with c e show ?thesis by (intro plain) simp
    next
      case False
      with c e show ?thesis by (intro js) simp_all
    qed
  next
    case c: False
    show ?thesis
    proof (cases "trim (js f) = []")
      case True
      with c e show ?thesis by (intro css) simp_all
    next
      case False
      with c e show ?thesis by (intro both) simp_all
    qed
  qed
qed

text \<open>
  What the manifest and the upload of one run hold, for the prepared files \<open>dfs\<close>: the
  keys of the manifest; for a prepared file, the digest of its content as value, and an
  uploaded entry with that digest as key and that content as bytes; for the archive,
  the digest of the archive built for the manifest as value, and an uploaded entry with
  the archive built for the upload as bytes and its digest as key; for
  \<open>/manifest.json\<close>, the digest of the indented JSON text as value, and an uploaded entry
  with that text as bytes and the digest of the compact text as key.
\<close>

lemma manifest_of_prepared:
  assumes z: "generateAsync L (zipEntries (prepareDeploymentFiles fs)) = Inr z"
    and m: "snd (buildManifestData L W n (prepareDeploymentFiles fs)) = Inr m"
    and us: "snd (prepareUploadFiles L W (prepareDeploymentFiles fs)) = Inr us"
  shows "map fst m =
           map (\<lambda>(fileName, fileData). ''/'' @ fileName) (prepareDeploymentFiles fs) @
           [''/'' @ n @ ''-deployment.zip'', ''/manifest.json''] \<and>
         distinct (map fst m) \<and>
         list_all (\<lambda>(fileName, fileData).
             map_of m (''/'' @ fileName) = Some (md5 L (content fileData)) \<and>
             list_ex (\<lambda>f. key f = md5 L (content fileData) \<and>
                           value64 f = toBase64 L (content fileData)) us)
           (prepareDeploymentFiles fs) \<and>
         map_of m (''/'' @ n @ ''-deployment.zip'') = Some (md5 L (z (zipDate_manifest W))) \<and>
         list_ex (\<lambda>f. key f = md5 L (z (zipDate_upload W)) \<and>
                       value64 f = toBase64 L (z (zipDate_upload W))) us \<and>
         map_of m ''/manifest.json'' =
           Some (md5 L (stringify2 L (sha256Manifest L (prepareDeploymentFiles fs)))) \<and>
         list_ex (\<lambda>f. key f = md5 L (stringify L (sha256Manifest L (prepareDeploymentFiles fs))) \<and>
                       value64 f = toBase64 L (stringify2 L (sha256Manifest L (prepareDeploymentFiles fs))))
           us \<and>
         length us = length m"
proof -
  note zn = zipName_neq[of n] zipName_neq[of n, symmetric]
  from m buildManifestData_Inr[OF z, of W n]
  have m_eq: "m = assign ''/manifest.json''
                    (md5 L (stringify2 L (sha256Manifest L (prepareDeploymentFiles fs))))
                    (assign (''/'' @ n @ ''-deployment.zip'') (md5 L (z (zipDate_manifest W)))
                       (fileHashes L (prepareDeploymentFiles fs)))"
    by simp
  from prepareUploadFiles_Inr[OF us] z obtain ih where
    ih: "map_of (prepareDeploymentFiles fs) ''index.html'' = Some ih" and
    us_eq: "us = [uploadEntry (md5 L (content ih)) (toBase64 L (content ih)) ''text/html'']
                @ optionalUpload L (prepareDeploymentFiles fs) ''script.js'' ''application/javascript''
                @ optionalUpload L (prepareDeploymentFiles fs) ''styles.css'' ''text/css''
                @ [uploadEntry (md5 L (stringify L (sha256Manifest L (prepareDeploymentFiles fs))))
                     (toBase64 L (stringify2 L (sha256Manifest L (prepareDeploymentFiles fs))))
                     ''application/json'']
                @ [uploadEntry (md5 L (z (zipDate_upload W))) (toBase64 L (z (zipDate_upload W)))
                     ''application/zip'']"
    by auto
  show ?thesis
  proof (cases rule: prepared_cases[of fs])
    case plain
    show ?thesis
      using ih unfolding m_eq us_eq plain
      by (simp add: fileHashes_def assign_def optionalUpload_def uploadEntry_def zn)
  next
    case css
    show ?thesis
      using ih css(1) unfolding m_eq us_eq css(2)
      by (simp add: fileHashes_def assign_def optionalUpload_def uploadEntry_def zn)
  next
    case js
    show ?thesis
      using ih js(1) unfolding m_eq us_eq js(2)
      by (simp add: fileHashes_def assign_def optionalUpload_def uploadEntry_def zn)
  next
    case both
    show ?thesis
      using ih both(1,2) unfolding m_eq us_eq both(3)
      by (simp add: fileHashes_def assign_def optionalUpload_def uploadEntry_def zn)
  qed
qed

text \<open>A run that makes the deployment-creation call has made the bulk upload, and its
  manifest and its upload are the ones above.\<close>

lemma deployPage_manifest:
  assumes "FetchDeployments u m b \<in> set (fst (deployPage L W S name fs))"
  shows "\<exists>tok us z. FetchUpload tok us \<in> set (fst (deployPage L W S name fs)) \<and>
           generateAsync L (zipEntries (prepareDeploymentFiles fs)) = Inr z \<and>
           snd (buildManifestData L W (finalName name) (prepareDeploymentFiles fs)) = Inr m \<and>
           snd (prepareUploadFiles L W (prepareDeploymentFiles fs)) = Inr us"
proof -
  from deployPage_create_call[OF assms] obtain dfs where
    u: "snd (uploadPhase L W S (finalName name) fs) = Inr dfs" and
    m: "snd (buildManifestData L W (finalName name) dfs) = Inr m" and
    sub: "set (fst (uploadPhase L W S (finalName name) fs)) \<subseteq> set (fst (deployPage L W S name fs))"
    by blast
  note d = uploadPhase_Inr(1)[OF u]
  from uploadPhase_Inr(4)[OF u] obtain tok us where
    us: "snd (prepareUploadFiles L W dfs) = Inr us" and
    call: "FetchUpload tok us \<in> set (fst (uploadPhase L W S (finalName name) fs))"
    by blast
  from uploadPhase_zip[OF u] obtain z where z: "generateAsync L (zipEntries dfs) = Inr z" ..
  from call sub z m us show ?thesis unfolding d by blast
qed

text \<open>So the manifest does not agree with the upload as soon as the digest of the
  indented JSON text is the key of no uploaded entry.\<close>

lemma manifest_json_is_no_key:
  assumes m: "snd (buildManifestData L W n (prepareDeploymentFiles fs)) = Inr m"
    and no: "\<not> list_ex (\<lambda>f. key f = md5 L (stringify2 L (sha256Manifest L (prepareDeploymentFiles fs)))) us"
  shows "\<not> manifestAgrees L decode n (prepareDeploymentFiles fs) m us"
proof
  let ?v = "md5 L (stringify2 L (sha256Manifest L (prepareDeploymentFiles fs)))"
  assume a: "manifestAgrees L decode n (prepareDeploymentFiles fs) m us"
  obtain z where z: "generateAsync L (zipEntries (prepareDeploymentFiles fs)) = Inr z"
  proof (cases "generateAsync L (zipEntries (prepareDeploymentFiles fs))")
    case (Inl e)
    from buildManifestData_Inl[OF this, of W n] m show ?thesis by simp
  next
    case (Inr z)
    then show ?thesis by (rule that)
  qed
  from m buildManifestData_Inr[OF z, of W n]
  have "m = assign ''/manifest.json'' ?v
              (assign (''/'' @ n @ ''-deployment.zip'') (md5 L (z (zipDate_manifest W)))
                 (fileHashes L (prepareDeploymentFiles fs)))"
    by simp
  then have mem: "(''/manifest.json'', ?v) \<in> set m"
    using assign_mem[of "''/manifest.json''" ?v] by simp
  from a have "list_all (\<lambda>(path, v). list_ex (\<lambda>f. key f = v \<and> md5 L (decode (value64 f)) = v) us) m"
    by (simp add: manifestAgrees_def)
  with mem have "list_ex (\<lambda>f. key f = ?v \<and> md5 L (decode (value64 f)) = ?v) us"
    unfolding list_all_iff by blast
  then have "list_ex (\<lambda>f. key f = ?v) us"
    unfolding list_ex_iff by blast
  with no show False by simp
qed

text \<open>
  C6. The claim is that the manifest submitted to the deployment-creation call has as
  keys the paths of the prepared files, the archive entry and \<open>/manifest.json\<close>, and that
  every value is the digest of the bytes uploaded under that entry's upload key. In
  this run the keys are as claimed, and the value of \<open>/index.html\<close> and of
  \<open>/styles.css\<close> is the key of an uploaded entry. The JSON text is uploaded under the
  digest of its compact form, and the value of \<open>/manifest.json\<close> is the digest of its
  indented form, which is the key of no uploaded entry. The value of the archive entry
  is the digest of a second archive, built after the upload, whose entries have a later
  date: it is the key of no uploaded entry either. So the manifest does not agree with
  the upload.
\<close>

theorem manifest_values_miss_upload_keys:
  "map fst (submittedManifest demoCalls) =
     [''/index.html'', ''/styles.css'', ''/demo-deployment.zip'', ''/manifest.json''] \<and>
   length (uploadedFiles demoCalls) = 4 \<and>
   list_ex (\<lambda>f. Some (key f) = map_of (submittedManifest demoCalls) ''/index.html'')
     (uploadedFiles demoCalls) \<and>
   list_ex (\<lambda>f. Some (key f) = map_of (submittedManifest demoCalls) ''/styles.css'')
     (uploadedFiles demoCalls) \<and>
   list_ex (\<lambda>f. key f = md5 demoLib (stringify demoLib (sha256Manifest demoLib (prepareDeploymentFiles demoFiles))) \<and>
                 value64 f = toBase64 demoLib (stringify2 demoLib (sha256Manifest demoLib (prepareDeploymentFiles demoFiles))))
     (uploadedFiles demoCalls) \<and>
   map_of (submittedManifest demoCalls) ''/manifest.json'' =
     Some (md5 demoLib (stringify2 demoLib (sha256Manifest demoLib (prepareDeploymentFiles demoFiles)))) \<and>
   \<not> list_ex (\<lambda>f. Some (key f) = map_of (submittedManifest demoCalls) ''/manifest.json'')
       (uploadedFiles demoCalls) \<and>
   \<not> list_ex (\<lambda>f. Some (key f) = map_of (submittedManifest demoCalls) ''/demo-deployment.zip'')
       (uploadedFiles demoCalls) \<and>
   \<not> manifestAgrees demoLib demoDecode ''demo'' (prepareDeploymentFiles demoFiles)
       (submittedManifest demoCalls) (uploadedFiles demoCalls)"
proof -
  have 1: "map fst (submittedManifest demoCalls) =
     [''/index.html'', ''/styles.css'', ''/demo-deployment.zip'', ''/manifest.json'']"
    by code_simp
  have 2: "length (uploadedFiles demoCalls) = 4"
    by code_simp
  have 3: "list_ex (\<lambda>f. Some (key f) = map_of (submittedManifest demoCalls) ''/index.html'')
     (uploadedFiles demoCalls)"
    by code_simp
  have 4: "list_ex (\<lambda>f. Some (key f) = map_of (submittedManifest demoCalls) ''/styles.css'')
     (uploadedFiles demoCalls)"
    by code_simp
  have 5: "list_ex (\<lambda>f. key f = md5 demoLib (stringify demoLib (sha256Manifest demoLib (prepareDeploymentFiles demoFiles))) \<and>
                 value64 f = toBase64 demoLib (stringify2 demoLib (sha256Manifest demoLib (prepareDeploymentFiles demoFiles))))
     (uploadedFiles demoCalls)"
    by code_simp
  have 6: "map_of (submittedManifest demoCalls) ''/manifest.json'' =
     Some (md5 demoLib (stringify2 demoLib (sha256Manifest demoLib (prepareDeploymentFiles demoFiles))))"
    by code_simp
  have 7: "\<not> list_ex (\<lambda>f. Some (key f) = map_of (submittedManifest demoCalls) ''/manifest.json'')
       (uploadedFiles demoCalls)"
    by code_simp
  have 8: "\<not> list_ex (\<lambda>f. Some (key f) = map_of (submittedManifest demoCalls) ''/demo-deployment.zip'')
       (uploadedFiles demoCalls)"
    by code_simp
  have "\<not> list_all (\<lambda>(path, v). list_ex (\<lambda>f. key f = v \<and> md5 demoLib (demoDecode (value64 f)) = v)
              (uploadedFiles demoCalls)) (submittedManifest demoCalls)"
    by code_simp
  then have 9: "\<not> manifestAgrees demoLib demoDecode ''demo'' (prepareDeploymentFiles demoFiles)
       (submittedManifest demoCalls) (uploadedFiles demoCalls)"
    by (simp add: manifestAgrees_def)
  from 1 2 3 4 5 6 7 8 9 show ?thesis by blast
qed

end
